theory Spec2Isabelle
  imports Main "HOL-Library.Sublist" "HOL-Library.Word"
begin

section \<open>Text and bytes\<close>

text \<open>
  A Python \<open>str\<close> is a sequence of Unicode code points and \<open>bytes\<close> a sequence of octets.
  The fixed message texts of the source are written out as code points.
\<close>

type_synonym pystr = "nat list"
type_synonym bytes = "8 word list"

definition ustr :: "string \<Rightarrow> pystr" where
  "ustr s = map of_char s"

text \<open>\<open>a in b\<close> on strings: \<open>a\<close> occurs in \<open>b\<close> as a contiguous run.\<close>

primrec str_contains :: "pystr \<Rightarrow> pystr \<Rightarrow> bool" where
  "str_contains p [] = (p = [])"
| "str_contains p (c # cs) = (prefix p (c # cs) \<or> str_contains p cs)"

definition startswith :: "pystr \<Rightarrow> pystr \<Rightarrow> bool" where
  "startswith s p = prefix p s"

text \<open>The characters \<open>str.strip()\<close> removes when called without an argument.\<close>

definition isspace :: "nat \<Rightarrow> bool" where
  "isspace c \<longleftrightarrow>
     (0x09 \<le> c \<and> c \<le> 0x0D) \<or> (0x1C \<le> c \<and> c \<le> 0x20) \<or> c = 0x85 \<or> c = 0xA0 \<or>
     c = 0x1680 \<or> (0x2000 \<le> c \<and> c \<le> 0x200A) \<or> c = 0x2028 \<or> c = 0x2029 \<or>
     c = 0x202F \<or> c = 0x205F \<or> c = 0x3000"

definition strip :: "pystr \<Rightarrow> pystr" where
  "strip s = rev (dropWhile isspace (rev (dropWhile isspace s)))"

text \<open>\<open>str(n)\<close> for an integer: decimal digits, with a sign when negative.\<close>

function str_nat :: "nat \<Rightarrow> pystr" where
  "str_nat n = (if n < 10 then [48 + n] else str_nat (n div 10) @ [48 + n mod 10])"
  by pat_completeness auto
termination
  by (relation "measure id") auto

declare str_nat.simps [simp del]

definition str_int :: "int \<Rightarrow> pystr" where
  "str_int i = (if i < 0 then 45 # str_nat (nat (- i)) else str_nat (nat i))"

text \<open>
  \<open>str.replace(old, new)\<close>: every non-overlapping occurrence, leftmost first; an empty
  \<open>old\<close> matches before every character and at the end.
\<close>

function replace_from :: "pystr \<Rightarrow> pystr \<Rightarrow> pystr \<Rightarrow> pystr" where
  "replace_from old new [] = []"
| "replace_from old new (c # cs) =
     (if old \<noteq> [] \<and> prefix old (c # cs)
      then new @ replace_from old new (drop (length old) (c # cs))
      else c # replace_from old new cs)"
  by pat_completeness auto
termination
  by (relation "measure (\<lambda>(old, new, s). length s)") (auto simp: neq_Nil_conv)

definition replace :: "pystr \<Rightarrow> pystr \<Rightarrow> pystr \<Rightarrow> pystr" where
  "replace s old new =
     (if old = [] then new @ concat (map (\<lambda>c. c # new) s) else replace_from old new s)"

section \<open>Schemas\<close>

text \<open>
  \<open>ScriptRule\<close> and \<open>ImageRule\<close> are the two rule classes of \<open>schemas.py\<close>. \<open>process_task\<close>
  dispatches on the class of each list element and has a branch for anything else;
  \<open>OtherRule\<close> stands for an object of any other class, carrying that class's name. Such an
  object has none of the rule attributes.
\<close>

datatype rule =
  ScriptRule (target_path: pystr) (pattern: pystr) (replacement: pystr) (use_regex: bool)
| ImageRule (target_path: pystr) (image_data: pystr)
| OtherRule (type_name: pystr)

datatype TaskStatus = PENDING | PROCESSING | COMPLETED | FAILED

record RuleResult =
  rule_index :: int
  success :: bool
  message :: pystr

text \<open>\<open>ValidationError(rule_index, field, message)\<close>.\<close>

datatype ValidationError = ValidationError int pystr pystr

record ValidationResult =
  valid :: bool
  errors :: "ValidationError list"

text \<open>
  The exceptions the modelled code can raise; \<open>exn_text\<close> is \<open>str(e)\<close>. \<open>OSError\<close> stands for
  an operating-system error without a class of its own and carries \<open>errno\<close>, its text and
  the file name.
\<close>

datatype exn =
  IsADirectoryError pystr
| NotADirectoryError pystr
| FileExistsError pystr
| FileNotFoundError pystr
| UnicodeDecodeError
| UnicodeEncodeError
| ReError pystr
| BinasciiError pystr
| ValueError pystr
| AttributeError pystr
| KeyError pystr
| RuntimeError pystr
| OSError nat string pystr

definition os_error_text :: "nat \<Rightarrow> string \<Rightarrow> pystr \<Rightarrow> pystr" where
  "os_error_text errno strerror filename =
     ustr ''[Errno '' @ str_nat errno @ ustr ''] '' @ ustr strerror @ ustr '': '' @
     [39] @ filename @ [39]"

text \<open>
  The texts of the operating-system errors quote the file name as \<open>repr\<close> does for a name
  without quotes, backslashes or control characters. The position report of the two
  codec errors is left out.
\<close>

fun exn_text :: "exn \<Rightarrow> pystr" where
  "exn_text (IsADirectoryError f) = os_error_text 21 ''Is a directory'' f"
| "exn_text (NotADirectoryError f) = os_error_text 20 ''Not a directory'' f"
| "exn_text (FileExistsError f) = os_error_text 17 ''File exists'' f"
| "exn_text (FileNotFoundError f) = os_error_text 2 ''No such file or directory'' f"
| "exn_text UnicodeDecodeError = ustr ''utf-8 codec cannot decode''"
| "exn_text UnicodeEncodeError = ustr ''utf-8 codec cannot encode: surrogates not allowed''"
| "exn_text (ReError m) = m"
| "exn_text (BinasciiError m) = m"
| "exn_text (ValueError m) = m"
| "exn_text (AttributeError m) = m"
| "exn_text (KeyError m) = [39] @ m @ [39]"
| "exn_text (RuntimeError m) = m"
| "exn_text (OSError errno strerror f) = os_error_text errno strerror f"

section \<open>Base64 (\<open>base64.b64decode\<close>)\<close>

definition b64_value :: "nat \<Rightarrow> nat option" where
  "b64_value c =
     (if 65 \<le> c \<and> c \<le> 90 then Some (c - 65)
      else if 97 \<le> c \<and> c \<le> 122 then Some (c - 97 + 26)
      else if 48 \<le> c \<and> c \<le> 57 then Some (c - 48 + 52)
      else if c = 43 then Some 62
      else if c = 47 then Some 63
      else None)"

text \<open>
  The decoding loop of \<open>binascii.a2b_base64\<close>. The state is the position in the current
  quad, the bits left over from the previous character, the number of padding characters
  seen in a row, whether padding has started, and the octets produced so far. With
  \<open>strict\<close> unset a character outside the alphabet is skipped; with \<open>strict\<close> set it is an
  error, as are data after the padding and data between padding characters.
\<close>

fun a2b_loop :: "bool \<Rightarrow> nat \<Rightarrow> nat \<Rightarrow> nat \<Rightarrow> bool \<Rightarrow> bytes \<Rightarrow> pystr \<Rightarrow> exn + bytes" where
  "a2b_loop strict quad_pos leftchar pads padding_started out [] =
     (if quad_pos \<noteq> 0 then
        (if quad_pos = 1 then
           Inl (BinasciiError
             (ustr ''Invalid base64-encoded string: number of data characters ('' @
              str_nat (length out div 3 * 4 + 1) @
              ustr '') cannot be 1 more than a multiple of 4''))
         else Inl (BinasciiError (ustr ''Incorrect padding'')))
      else Inr out)"
| "a2b_loop strict quad_pos leftchar pads padding_started out (this_ch # rest) =
     (if this_ch = 61 then
        (if quad_pos \<ge> 2 \<and> quad_pos + (pads + 1) \<ge> 4 then
           (if strict \<and> rest \<noteq> [] then Inl (BinasciiError (ustr ''Excess data after padding''))
            else Inr out)
         else a2b_loop strict quad_pos leftchar (if quad_pos \<ge> 2 then pads + 1 else pads)
                True out rest)
      else
        (case b64_value this_ch of
           None \<Rightarrow>
             (if strict then Inl (BinasciiError (ustr ''Only base64 data is allowed''))
              else a2b_loop strict quad_pos leftchar pads padding_started out rest)
         | Some v \<Rightarrow>
             (if strict \<and> padding_started
              then Inl (BinasciiError (ustr ''Discontinuous padding not allowed''))
              else if quad_pos = 0 then a2b_loop strict 1 v 0 padding_started out rest
              else if quad_pos = 1 then
                a2b_loop strict 2 (v mod 16) 0 padding_started
                  (out @ [of_nat (leftchar * 4 + v div 16)]) rest
              else if quad_pos = 2 then
                a2b_loop strict 3 (v mod 4) 0 padding_started
                  (out @ [of_nat (leftchar * 16 + v div 4)]) rest
              else
                a2b_loop strict 0 0 0 padding_started
                  (out @ [of_nat (leftchar * 64 + v)]) rest)))"

definition a2b_base64 :: "bool \<Rightarrow> pystr \<Rightarrow> exn + bytes" where
  "a2b_base64 strict s =
     (if strict \<and> s \<noteq> [] \<and> hd s = 61
      then Inl (BinasciiError (ustr ''Leading padding not allowed''))
      else a2b_loop strict 0 0 0 False [] s)"

text \<open>
  \<open>base64.b64decode(s, validate=v)\<close> on a \<open>str\<close>: the string is encoded as ASCII first,
  which fails on any other character.
\<close>

definition b64decode :: "pystr \<Rightarrow> bool \<Rightarrow> exn + bytes" where
  "b64decode s validate =
     (if \<exists>c \<in> set s. c \<ge> 128
      then Inl (ValueError (ustr ''string argument should contain only ASCII characters''))
      else a2b_base64 validate s)"

section \<open>Rule validation (\<open>rule_engine.py\<close>)\<close>

definition msg_target_path_empty :: pystr where
  "msg_target_path_empty = ustr ''target_path '' @ [0x4E0D, 0x80FD, 0x4E3A, 0x7A7A]"

definition msg_target_path_dotdot :: pystr where
  "msg_target_path_dotdot =
     ustr ''target_path '' @ [0x4E0D, 0x80FD, 0x5305, 0x542B] @ ustr '' '' @ [39, 46, 46, 39] @
     ustr '' '' @ [0x8DEF, 0x5F84, 0x904D, 0x5386]"

definition msg_target_path_absolute :: pystr where
  "msg_target_path_absolute =
     ustr ''target_path '' @
     [0x5FC5, 0x987B, 0x662F, 0x76F8, 0x5BF9, 0x8DEF, 0x5F84, 0xFF0C, 0x4E0D, 0x80FD, 0x4EE5] @
     ustr '' '' @ [39, 47, 39] @ ustr '' '' @ [0x5F00, 0x5934]"

definition msg_pattern_empty :: pystr where
  "msg_pattern_empty = ustr ''pattern '' @ [0x4E0D, 0x80FD, 0x4E3A, 0x7A7A]"

definition msg_invalid_regex :: pystr where
  "msg_invalid_regex =
     [0x65E0, 0x6548, 0x7684, 0x6B63, 0x5219, 0x8868, 0x8FBE, 0x5F0F] @ ustr '': ''"

definition msg_image_data_empty :: pystr where
  "msg_image_data_empty = ustr ''image_data '' @ [0x4E0D, 0x80FD, 0x4E3A, 0x7A7A]"

definition msg_image_data_invalid :: pystr where
  "msg_image_data_invalid =
     ustr ''image_data '' @ [0x4E0D, 0x662F, 0x6709, 0x6548, 0x7684] @ ustr '' Base64 '' @
     [0x7F16, 0x7801]"

definition validate_target_path :: "int \<Rightarrow> pystr \<Rightarrow> ValidationError list" where
  "validate_target_path index tp =
     (if tp = [] \<or> strip tp = []
      then [ValidationError index (ustr ''target_path'') msg_target_path_empty]
      else
        (if str_contains (ustr ''..'') tp
         then [ValidationError index (ustr ''target_path'') msg_target_path_dotdot]
         else []) @
        (if startswith tp (ustr ''/'')
         then [ValidationError index (ustr ''target_path'') msg_target_path_absolute]
         else []))"

text \<open>
  \<open>re.compile\<close> belongs to the regular-expression library and is a parameter here:
  \<open>re_compile p\<close> is \<open>None\<close> when \<open>p\<close> compiles and the text of the \<open>re.error\<close> otherwise.
\<close>

definition validate_script_rule ::
  "(pystr \<Rightarrow> pystr option) \<Rightarrow> int \<Rightarrow> rule \<Rightarrow> ValidationError list" where
  "validate_script_rule re_compile index rule =
     (if pattern rule = [] \<or> strip (pattern rule) = []
      then [ValidationError index (ustr ''pattern'') msg_pattern_empty]
      else if use_regex rule then
        (case re_compile (pattern rule) of
           None \<Rightarrow> []
         | Some e \<Rightarrow> [ValidationError index (ustr ''pattern'') (msg_invalid_regex @ e)])
      else [])"

definition validate_image_rule :: "int \<Rightarrow> rule \<Rightarrow> ValidationError list" where
  "validate_image_rule index rule =
     (if image_data rule = [] \<or> strip (image_data rule) = []
      then [ValidationError index (ustr ''image_data'') msg_image_data_empty]
      else
        (case b64decode (image_data rule) True of
           Inr _ \<Rightarrow> []
         | Inl _ \<Rightarrow> [ValidationError index (ustr ''image_data'') msg_image_data_invalid]))"

text \<open>
  The loop of \<open>validate_rules\<close> from position \<open>index\<close> on. Reading \<open>rule.target_path\<close> of an
  object that is no rule raises \<open>AttributeError\<close>.
\<close>

fun validate_from ::
  "(pystr \<Rightarrow> pystr option) \<Rightarrow> nat \<Rightarrow> rule list \<Rightarrow> exn + ValidationError list" where
  "validate_from re_compile index [] = Inr []"
| "validate_from re_compile index (OtherRule n # rules) =
     Inl (AttributeError ([39] @ n @ [39] @ ustr '' object has no attribute '' @
          [39] @ ustr ''target_path'' @ [39]))"
| "validate_from re_compile index (rule # rules) =
     (case validate_from re_compile (Suc index) rules of
        Inl e \<Rightarrow> Inl e
      | Inr rest \<Rightarrow>
          Inr (validate_target_path (int index) (target_path rule) @
               (case rule of
                  ScriptRule _ _ _ _ \<Rightarrow> validate_script_rule re_compile (int index) rule
                | ImageRule _ _ \<Rightarrow> validate_image_rule (int index) rule
                | OtherRule _ \<Rightarrow> []) @
               rest))"

definition validate_rules ::
  "(pystr \<Rightarrow> pystr option) \<Rightarrow> rule list \<Rightarrow> exn + ValidationResult" where
  "validate_rules re_compile rules =
     (case validate_from re_compile 0 rules of
        Inl e \<Rightarrow> Inl e
      | Inr errs \<Rightarrow> Inr \<lparr>valid = (length errs = 0), errors = errs\<rparr>)"

section \<open>UTF-8 and text-mode files\<close>

text \<open>Strict UTF-8 as the \<open>utf-8\<close> codec decodes it: no overlong forms, no surrogates.\<close>

definition is_cont :: "nat \<Rightarrow> bool" where
  "is_cont b \<longleftrightarrow> 0x80 \<le> b \<and> b \<le> 0xBF"

definition second_ok :: "nat \<Rightarrow> nat \<Rightarrow> bool" where
  "second_ok b0 b1 \<longleftrightarrow>
     (if b0 = 0xE0 then 0xA0 else if b0 = 0xF0 then 0x90 else 0x80) \<le> b1 \<and>
     b1 \<le> (if b0 = 0xED then 0x9F else if b0 = 0xF4 then 0x8F else 0xBF)"

fun utf8_decode :: "nat list \<Rightarrow> pystr option" where
  "utf8_decode [] = Some []"
| "utf8_decode (b0 # bs) =
     (if b0 < 0x80 then map_option ((#) b0) (utf8_decode bs)
      else if 0xC2 \<le> b0 \<and> b0 \<le> 0xDF then
        (case bs of
           b1 # r \<Rightarrow>
             (if is_cont b1
              then map_option ((#) ((b0 - 0xC0) * 64 + (b1 - 0x80))) (utf8_decode r)
              else None)
         | _ \<Rightarrow> None)
      else if 0xE0 \<le> b0 \<and> b0 \<le> 0xEF then
        (case bs of
           b1 # b2 # r \<Rightarrow>
             (if second_ok b0 b1 \<and> is_cont b2
              then map_option
                     ((#) ((b0 - 0xE0) * 4096 + (b1 - 0x80) * 64 + (b2 - 0x80)))
                     (utf8_decode r)
              else None)
         | _ \<Rightarrow> None)
      else if 0xF0 \<le> b0 \<and> b0 \<le> 0xF4 then
        (case bs of
           b1 # b2 # b3 # r \<Rightarrow>
             (if second_ok b0 b1 \<and> is_cont b2 \<and> is_cont b3
              then map_option
                     ((#) ((b0 - 0xF0) * 262144 + (b1 - 0x80) * 4096 + (b2 - 0x80) * 64 +
                           (b3 - 0x80)))
                     (utf8_decode r)
              else None)
         | _ \<Rightarrow> None)
      else None)"

definition utf8_encode_cp :: "nat \<Rightarrow> nat list option" where
  "utf8_encode_cp cp =
     (if cp < 0x80 then Some [cp]
      else if cp < 0x800 then Some [0xC0 + cp div 64, 0x80 + cp mod 64]
      else if cp < 0x10000 then
        (if 0xD800 \<le> cp \<and> cp \<le> 0xDFFF then None
         else Some [0xE0 + cp div 4096, 0x80 + cp div 64 mod 64, 0x80 + cp mod 64])
      else if cp < 0x110000 then
        Some [0xF0 + cp div 262144, 0x80 + cp div 4096 mod 64, 0x80 + cp div 64 mod 64,
              0x80 + cp mod 64]
      else None)"

fun utf8_encode :: "pystr \<Rightarrow> nat list option" where
  "utf8_encode [] = Some []"
| "utf8_encode (cp # cps) =
     (case utf8_encode_cp cp of
        None \<Rightarrow> None
      | Some bs \<Rightarrow> map_option ((@) bs) (utf8_encode cps))"

text \<open>
  A file opened in text mode with the default \<open>newline=None\<close> is read with universal
  newlines: \<open>\r\n\<close> and a lone \<open>\r\<close> both arrive as \<open>\n\<close>. On writing, \<open>\n\<close> becomes
  \<open>os.linesep\<close>, which on POSIX is \<open>\n\<close> itself.
\<close>

fun universal_newlines :: "pystr \<Rightarrow> pystr" where
  "universal_newlines [] = []"
| "universal_newlines [c] = [if c = 13 then 10 else c]"
| "universal_newlines (c # d # cs) =
     (if c = 13 \<and> d = 10 then 10 # universal_newlines cs
      else if c = 13 then 10 # universal_newlines (d # cs)
      else c # universal_newlines (d # cs))"

section \<open>The file system\<close>

text \<open>
  Regular files and directories only. A path is the list of its components from the root,
  as \<open>pathlib\<close> holds it: no empty and no \<open>.\<close> component, \<open>..\<close> kept. The directories handed
  to the processor (cache, workspace, output) are such lists without \<open>..\<close>. The root is a
  directory. The limits on names are those of Linux, \<open>NAME_MAX\<close> of 255 bytes for a component
  and \<open>PATH_MAX\<close> of 4096 bytes for a path, and apply wherever a path is looked up; the
  directories that the processor creates (workspace, output) are taken to have names within
  them. Permissions and exhausted storage are outside the model.
\<close>

datatype node = File bytes | Dir

type_synonym path = "pystr list"
type_synonym fs = "path \<Rightarrow> node option"

definition node_at :: "fs \<Rightarrow> path \<Rightarrow> node option" where
  "node_at files p = (if p = [] then Some Dir else files p)"

definition path_str :: "path \<Rightarrow> pystr" where
  "path_str p = (if p = [] then [47] else concat (map (\<lambda>c. 47 # c) p))"

fun split_slash :: "pystr \<Rightarrow> pystr list" where
  "split_slash [] = [[]]"
| "split_slash (c # cs) =
     (if c = 47 then [] # split_slash cs
      else (case split_slash cs of [] \<Rightarrow> [[c]] | p # ps \<Rightarrow> (c # p) # ps))"

definition path_parts :: "pystr \<Rightarrow> pystr list" where
  "path_parts s = filter (\<lambda>c. c \<noteq> [] \<and> c \<noteq> [46]) (split_slash s)"

text \<open>\<open>base / s\<close>: a string that starts with a slash replaces the base.\<close>

definition joinpath :: "path \<Rightarrow> pystr \<Rightarrow> path" where
  "joinpath base s = (if startswith s [47] then path_parts s else base @ path_parts s)"

text \<open>
  What the operating system sees of a string is its encoding (UTF-8, with the code points
  \<open>U+DC80\<close> to \<open>U+DCFF\<close> standing for single undecodable bytes). \<open>fs_length\<close> is the
  length of that encoding; a string with a NUL or with any other surrogate has none and is
  refused with \<open>ValueError\<close> before the system is asked.
\<close>

fun fs_length :: "pystr \<Rightarrow> nat option" where
  "fs_length [] = Some 0"
| "fs_length (c # cs) =
     (if c = 0 then None
      else if 0xDC80 \<le> c \<and> c \<le> 0xDCFF then map_option Suc (fs_length cs)
      else (case utf8_encode_cp c of
              None \<Rightarrow> None
            | Some bs \<Rightarrow> map_option ((+) (length bs)) (fs_length cs)))"

definition name_max :: nat where
  "name_max = 255"

definition path_max :: nat where
  "path_max = 4096"

definition too_long :: "pystr \<Rightarrow> bool" where
  "too_long c \<longleftrightarrow> (case fs_length c of None \<Rightarrow> False | Some n \<Rightarrow> n > name_max)"

text \<open>
  Name resolution by the operating system, component by component from \<open>cur\<close>: every
  component is looked up in a directory, \<open>..\<close> leads to the parent, and a name longer than
  \<open>NAME_MAX\<close> bytes is refused by the directory it is looked up in. \<open>name\<close> is the file name
  reported in the error.
\<close>

fun lookup :: "pystr \<Rightarrow> fs \<Rightarrow> path \<Rightarrow> pystr list \<Rightarrow> exn + path" where
  "lookup name files cur [] =
     (if node_at files cur = None then Inl (FileNotFoundError name) else Inr cur)"
| "lookup name files cur (c # cs) =
     (case node_at files cur of
        None \<Rightarrow> Inl (FileNotFoundError name)
      | Some (File b) \<Rightarrow> Inl (NotADirectoryError name)
      | Some Dir \<Rightarrow>
          (if c = [46, 46] then lookup name files (butlast cur) cs
           else if too_long c then Inl (OSError 36 ''File name too long'' name)
           else lookup name files (cur @ [c]) cs))"

text \<open>\<open>os.stat\<close>: the place a path leads to. A path of \<open>PATH_MAX\<close> bytes or more is refused.\<close>

definition stat :: "fs \<Rightarrow> path \<Rightarrow> exn + path" where
  "stat files p =
     (case fs_length (path_str p) of
        None \<Rightarrow> Inl (ValueError (ustr ''embedded null byte''))
      | Some n \<Rightarrow>
          (if n \<ge> path_max then Inl (OSError 36 ''File name too long'' (path_str p))
           else lookup (path_str p) files [] p))"

text \<open>
  \<open>Path.exists()\<close> calls \<open>stat\<close> and answers \<open>False\<close> to \<open>ValueError\<close> and to the errors for a
  missing entry (\<open>ENOENT\<close>, \<open>ENOTDIR\<close>); every other error it raises again.
\<close>

fun ignore_error :: "exn \<Rightarrow> bool" where
  "ignore_error (FileNotFoundError f) = True"
| "ignore_error (NotADirectoryError f) = True"
| "ignore_error (ValueError m) = True"
| "ignore_error e = False"

definition path_exists :: "fs \<Rightarrow> path \<Rightarrow> exn + bool" where
  "path_exists files p =
     (case stat files p of
        Inr q \<Rightarrow> Inr True
      | Inl e \<Rightarrow> (if ignore_error e then Inr False else Inl e))"

definition read_bytes :: "fs \<Rightarrow> path \<Rightarrow> exn + bytes" where
  "read_bytes files p =
     (case stat files p of
        Inl e \<Rightarrow> Inl e
      | Inr q \<Rightarrow>
          (case node_at files q of
             Some (File b) \<Rightarrow> Inr b
           | _ \<Rightarrow> Inl (IsADirectoryError (path_str p))))"

text \<open>Opening for writing: the place of the file, which is created when only it is missing.\<close>

fun is_not_found :: "exn \<Rightarrow> bool" where
  "is_not_found (FileNotFoundError f) = True"
| "is_not_found e = False"

definition open_w :: "fs \<Rightarrow> path \<Rightarrow> exn + path" where
  "open_w files p =
     (case stat files p of
        Inr q \<Rightarrow>
          (case node_at files q of
             Some (File b) \<Rightarrow> Inr q
           | _ \<Rightarrow> Inl (IsADirectoryError (path_str p)))
      | Inl e \<Rightarrow>
          (if is_not_found e \<and> p \<noteq> [] then
             (case stat files (butlast p) of
                Inl e' \<Rightarrow> Inl e
              | Inr d \<Rightarrow>
                  (if node_at files d = Some Dir then Inr (d @ [last p]) else Inl e))
           else Inl e))"

definition write_bytes :: "fs \<Rightarrow> path \<Rightarrow> bytes \<Rightarrow> (exn + unit) \<times> fs" where
  "write_bytes files p data =
     (case open_w files p of
        Inl e \<Rightarrow> (Inl e, files)
      | Inr q \<Rightarrow> (Inr (), files(q \<mapsto> File data)))"

definition read_text :: "fs \<Rightarrow> path \<Rightarrow> exn + pystr" where
  "read_text files p =
     (case read_bytes files p of
        Inl e \<Rightarrow> Inl e
      | Inr b \<Rightarrow>
          (case utf8_decode (map unat b) of
             None \<Rightarrow> Inl UnicodeDecodeError
           | Some s \<Rightarrow> Inr (universal_newlines s)))"

text \<open>
  \<open>write_text\<close> opens the file, which empties it, and then encodes: a string that cannot be
  encoded leaves the file empty.
\<close>

definition write_text :: "fs \<Rightarrow> path \<Rightarrow> pystr \<Rightarrow> (exn + unit) \<times> fs" where
  "write_text files p s =
     (case open_w files p of
        Inl e \<Rightarrow> (Inl e, files)
      | Inr q \<Rightarrow>
          (case utf8_encode s of
             None \<Rightarrow> (Inl UnicodeEncodeError, files(q \<mapsto> File []))
           | Some b \<Rightarrow> (Inr (), files(q \<mapsto> File (map of_nat b)))))"

text \<open>\<open>mkdir(parents=True, exist_ok=True)\<close>, from \<open>cur\<close> downwards.\<close>

fun mkdirs :: "fs \<Rightarrow> path \<Rightarrow> pystr list \<Rightarrow> exn + fs" where
  "mkdirs files cur [] = Inr files"
| "mkdirs files cur (c # cs) =
     (case node_at files (cur @ [c]) of
        Some Dir \<Rightarrow> mkdirs files (cur @ [c]) cs
      | Some (File b) \<Rightarrow>
          Inl (if cs = [] then FileExistsError (path_str (cur @ [c]))
               else NotADirectoryError (path_str (cur @ c # cs)))
      | None \<Rightarrow> mkdirs (files((cur @ [c]) \<mapsto> Dir)) (cur @ [c]) cs)"

text \<open>
  \<open>shutil.copytree(src, dst)\<close> for a destination outside the source tree: the source has to
  be a directory, the destination must not exist, its missing parents are created, and every
  entry below the source appears below the destination.
\<close>

definition copytree :: "fs \<Rightarrow> path \<Rightarrow> path \<Rightarrow> exn + fs" where
  "copytree files src dst =
     (case node_at files src of
        None \<Rightarrow> Inl (FileNotFoundError (path_str src))
      | Some (File b) \<Rightarrow> Inl (NotADirectoryError (path_str src))
      | Some Dir \<Rightarrow>
          (if node_at files dst \<noteq> None then Inl (FileExistsError (path_str dst))
           else
             (case mkdirs files [] dst of
                Inl e \<Rightarrow> Inl e
              | Inr files1 \<Rightarrow>
                  Inr (\<lambda>p. if prefix dst p \<and> p \<noteq> dst
                           then files (src @ drop (length dst) p)
                           else files1 p))))"

text \<open>
  \<open>shutil.rmtree(d, ignore_errors=True)\<close>: a directory goes with everything below it;
  anything else makes the call fail, silently.
\<close>

definition rmtree :: "fs \<Rightarrow> path \<Rightarrow> fs" where
  "rmtree files d =
     (case node_at files d of
        Some Dir \<Rightarrow> (\<lambda>p. if prefix d p then None else files p)
      | _ \<Rightarrow> files)"

section \<open>Rule application (\<open>rule_engine.py\<close>)\<close>

definition msg_target_missing :: pystr where
  "msg_target_missing = [0x76EE, 0x6807, 0x6587, 0x4EF6, 0x4E0D, 0x5B58, 0x5728] @ ustr '': ''"

definition msg_script_ok :: pystr where
  "msg_script_ok = [0x811A, 0x672C, 0x66FF, 0x6362, 0x6210, 0x529F] @ ustr '': ''"

definition msg_script_failed :: pystr where
  "msg_script_failed = [0x811A, 0x672C, 0x66FF, 0x6362, 0x5931, 0x8D25] @ ustr '': ''"

definition msg_image_ok :: pystr where
  "msg_image_ok = [0x56FE, 0x7247, 0x66FF, 0x6362, 0x6210, 0x529F] @ ustr '': ''"

definition msg_image_failed :: pystr where
  "msg_image_failed = [0x56FE, 0x7247, 0x66FF, 0x6362, 0x5931, 0x8D25] @ ustr '': ''"

definition msg_error_sep :: pystr where
  "msg_error_sep = ustr '', '' @ [0x9519, 0x8BEF] @ ustr '': ''"

definition msg_unknown_rule :: pystr where
  "msg_unknown_rule = [0x672A, 0x77E5, 0x7684, 0x89C4, 0x5219, 0x7C7B, 0x578B] @ ustr '': ''"

definition script_failure :: "rule \<Rightarrow> exn \<Rightarrow> RuleResult" where
  "script_failure rule e =
     \<lparr>rule_index = 0, success = False,
      message = msg_script_failed @ target_path rule @ msg_error_sep @ exn_text e\<rparr>"

definition image_failure :: "rule \<Rightarrow> exn \<Rightarrow> RuleResult" where
  "image_failure rule e =
     \<lparr>rule_index = 0, success = False,
      message = msg_image_failed @ target_path rule @ msg_error_sep @ exn_text e\<rparr>"

text \<open>
  \<open>re.sub\<close> belongs to the regular-expression library and is a parameter:
  \<open>re_sub pattern repl content\<close> is the substituted text, or the error the call raises.

  Both appliers return their result, or the exception that leaves them, together with the
  files. The existence check stands before the \<open>try\<close> block, so what it raises leaves the
  function; what the block raises becomes a failure result.
\<close>

definition apply_script_rule ::
  "(pystr \<Rightarrow> pystr \<Rightarrow> pystr \<Rightarrow> exn + pystr) \<Rightarrow> fs \<Rightarrow> path \<Rightarrow> rule \<Rightarrow>
     (exn + RuleResult) \<times> fs" where
  "apply_script_rule re_sub files base_dir rule =
     (let target_file = joinpath base_dir (target_path rule) in
      case path_exists files target_file of
        Inl e \<Rightarrow> (Inl e, files)
      | Inr found \<Rightarrow>
          if \<not> found then
            (Inr \<lparr>rule_index = 0, success = False,
                  message = msg_target_missing @ target_path rule\<rparr>, files)
          else
            (case read_text files target_file of
               Inl e \<Rightarrow> (Inr (script_failure rule e), files)
             | Inr content \<Rightarrow>
                 (case (if use_regex rule then re_sub (pattern rule) (replacement rule) content
                        else Inr (replace content (pattern rule) (replacement rule))) of
                    Inl e \<Rightarrow> (Inr (script_failure rule e), files)
                  | Inr new_content \<Rightarrow>
                      (case write_text files target_file new_content of
                         (Inl e, files') \<Rightarrow> (Inr (script_failure rule e), files')
                       | (Inr u, files') \<Rightarrow>
                           (Inr \<lparr>rule_index = 0, success = True,
                                 message = msg_script_ok @ target_path rule\<rparr>, files')))))"

definition apply_image_rule :: "fs \<Rightarrow> path \<Rightarrow> rule \<Rightarrow> (exn + RuleResult) \<times> fs" where
  "apply_image_rule files base_dir rule =
     (let target_file = joinpath base_dir (target_path rule) in
      case path_exists files target_file of
        Inl e \<Rightarrow> (Inl e, files)
      | Inr found \<Rightarrow>
          if \<not> found then
            (Inr \<lparr>rule_index = 0, success = False,
                  message = msg_target_missing @ target_path rule\<rparr>, files)
          else
            (case b64decode (image_data rule) False of
               Inl e \<Rightarrow> (Inr (image_failure rule e), files)
             | Inr image_bytes \<Rightarrow>
                 (case write_bytes files target_file image_bytes of
                    (Inl e, files') \<Rightarrow> (Inr (image_failure rule e), files')
                  | (Inr u, files') \<Rightarrow>
                      (Inr \<lparr>rule_index = 0, success = True,
                            message = msg_image_ok @ target_path rule\<rparr>, files'))))"

section \<open>The processor (\<open>apk_processor.py\<close>)\<close>

definition msg_copy_failed :: pystr where
  "msg_copy_failed =
     [0x590D, 0x5236, 0x7F13, 0x5B58, 0x5230, 0x5DE5, 0x4F5C, 0x76EE, 0x5F55, 0x5931, 0x8D25] @
     ustr '': ''"

definition msg_recompile_failed :: "int \<Rightarrow> pystr \<Rightarrow> pystr" where
  "msg_recompile_failed returncode error_msg =
     ustr ''apktool '' @ [0x91CD, 0x65B0, 0x6253, 0x5305, 0x5931, 0x8D25] @
     ustr '' (exit code '' @ str_int returncode @ ustr ''): '' @ error_msg"

definition copy_cache_to_workdir :: "fs \<Rightarrow> path \<Rightarrow> path \<Rightarrow> exn + fs" where
  "copy_cache_to_workdir files cache_dir work_dir =
     (case copytree files cache_dir work_dir of
        Inl e \<Rightarrow> Inl (RuntimeError (msg_copy_failed @ exn_text e))
      | Inr files' \<Rightarrow> Inr files')"

text \<open>
  The repackaging tool is an external process and a parameter: \<open>apktool files source out\<close>
  is its exit status, the text of its error stream as decoded, and the files it leaves.
\<close>

type_synonym tool = "fs \<Rightarrow> path \<Rightarrow> path \<Rightarrow> int \<times> pystr \<times> fs"

definition recompile :: "tool \<Rightarrow> fs \<Rightarrow> path \<Rightarrow> path \<Rightarrow> (exn + unit) \<times> fs" where
  "recompile apktool files source_dir output_apk =
     (case mkdirs files [] (butlast output_apk) of
        Inl e \<Rightarrow> (Inl e, files)
      | Inr files1 \<Rightarrow>
          (case apktool files1 source_dir output_apk of
             (returncode, stderr, files2) \<Rightarrow>
               (if returncode \<noteq> 0
                then (Inl (RuntimeError (msg_recompile_failed returncode (strip stderr))), files2)
                else (Inr (), files2))))"

text \<open>
  One pass of the loop of \<open>process_task\<close>: the dispatch on the class of the rule, and the
  position written into the result. An exception from an applier passes through.
\<close>

definition apply_rule ::
  "(pystr \<Rightarrow> pystr \<Rightarrow> pystr \<Rightarrow> exn + pystr) \<Rightarrow> fs \<Rightarrow> path \<Rightarrow> nat \<Rightarrow> rule \<Rightarrow>
     (exn + RuleResult) \<times> fs" where
  "apply_rule re_sub files decompiled_dir index rule =
     (case (case rule of
              ScriptRule a b c d \<Rightarrow> apply_script_rule re_sub files decompiled_dir rule
            | ImageRule a b \<Rightarrow> apply_image_rule files decompiled_dir rule
            | OtherRule n \<Rightarrow>
                (Inr \<lparr>rule_index = int index, success = False,
                      message = msg_unknown_rule @ n\<rparr>, files)) of
        (Inl e, files') \<Rightarrow> (Inl e, files')
      | (Inr result, files') \<Rightarrow> (Inr (result\<lparr>rule_index := int index\<rparr>), files'))"

text \<open>
  The loop. There is no \<open>try\<close> around it: an exception ends it, with the files as the rules
  so far have left them.
\<close>

fun apply_rules ::
  "(pystr \<Rightarrow> pystr \<Rightarrow> pystr \<Rightarrow> exn + pystr) \<Rightarrow> fs \<Rightarrow> path \<Rightarrow> nat \<Rightarrow> rule list \<Rightarrow>
     (exn + RuleResult list) \<times> fs" where
  "apply_rules re_sub files decompiled_dir index [] = (Inr [], files)"
| "apply_rules re_sub files decompiled_dir index (rule # rules) =
     (case apply_rule re_sub files decompiled_dir index rule of
        (Inl e, files1) \<Rightarrow> (Inl e, files1)
      | (Inr result, files1) \<Rightarrow>
          (case apply_rules re_sub files1 decompiled_dir (Suc index) rules of
             (Inl e, files2) \<Rightarrow> (Inl e, files2)
           | (Inr rule_results, files2) \<Rightarrow> (Inr (result # rule_results), files2)))"

text \<open>
  \<open>process_task\<close>: the work directory is removed when the copy or the recompile fails; an
  exception out of the loop leaves the function as it is.
\<close>

definition process_task ::
  "(pystr \<Rightarrow> pystr \<Rightarrow> pystr \<Rightarrow> exn + pystr) \<Rightarrow> tool \<Rightarrow> fs \<Rightarrow> path \<Rightarrow> path \<Rightarrow> path \<Rightarrow> rule list \<Rightarrow>
     (exn + RuleResult list) \<times> fs" where
  "process_task re_sub apktool files cache_dir work_dir output_path rules =
     (case copy_cache_to_workdir files cache_dir work_dir of
        Inl e \<Rightarrow> (Inl e, rmtree files work_dir)
      | Inr files1 \<Rightarrow>
          (case apply_rules re_sub files1 (work_dir @ [ustr ''decompiled'']) 0 rules of
             (Inl e, files2) \<Rightarrow> (Inl e, files2)
           | (Inr rule_results, files2) \<Rightarrow>
               (case recompile apktool files2 (work_dir @ [ustr ''decompiled'']) output_path of
                  (Inl e, files3) \<Rightarrow> (Inl e, rmtree files3 work_dir)
                | (Inr u, files3) \<Rightarrow> (Inr rule_results, files3))))"

section \<open>Storage paths and the background runner (\<open>storage_service.py\<close>, \<open>task_router.py\<close>)\<close>

definition get_cache_dir :: "path \<Rightarrow> pystr \<Rightarrow> path" where
  "get_cache_dir base_dir apk_id = joinpath (base_dir @ [ustr ''cache'']) apk_id"

definition get_work_dir :: "path \<Rightarrow> pystr \<Rightarrow> path" where
  "get_work_dir base_dir task_id = joinpath (base_dir @ [ustr ''workspace'']) task_id"

definition get_output_path :: "path \<Rightarrow> pystr \<Rightarrow> path" where
  "get_output_path base_dir task_id =
     joinpath (base_dir @ [ustr ''output'']) (task_id @ ustr ''.apk'')"

record task =
  apk_id :: pystr
  status :: TaskStatus
  created_at :: nat
  completed_at :: "nat option"
  download_url :: "pystr option"
  rule_results :: "RuleResult list"
  error :: "pystr option"

text \<open>The shared state: the task records of \<open>state.tasks\<close> and the files on disk.\<close>

record world =
  tasks :: "pystr \<rightharpoonup> task"
  disk :: fs

text \<open>
  \<open>_run_task\<close>. \<open>base_dir\<close> is the storage root and \<open>now\<close> the time read when the pipeline
  has ended. Looking up a task that is not in the store raises \<open>KeyError\<close>.
\<close>

definition run_task ::
  "(pystr \<Rightarrow> pystr \<Rightarrow> pystr \<Rightarrow> exn + pystr) \<Rightarrow> tool \<Rightarrow> path \<Rightarrow> nat \<Rightarrow> world \<Rightarrow> pystr \<Rightarrow> pystr \<Rightarrow>
     rule list \<Rightarrow> exn + world" where
  "run_task re_sub apktool base_dir now w task_id aid rules =
     (case tasks w task_id of
        None \<Rightarrow> Inl (KeyError task_id)
      | Some t \<Rightarrow>
          (let t1 = t\<lparr>status := PROCESSING\<rparr> in
           case process_task re_sub apktool (disk w) (get_cache_dir base_dir aid)
                  (get_work_dir base_dir task_id) (get_output_path base_dir task_id) rules of
             (Inr results, files') \<Rightarrow>
               Inr \<lparr>tasks = (tasks w)(task_id \<mapsto>
                      t1\<lparr>status := COMPLETED,
                         download_url := Some (ustr ''/api/v1/download/'' @ task_id),
                         rule_results := results,
                         completed_at := Some now\<rparr>),
                    disk = files'\<rparr>
           | (Inl e, files') \<Rightarrow>
               Inr \<lparr>tasks = (tasks w)(task_id \<mapsto>
                      t1\<lparr>status := FAILED, error := Some (exn_text e),
                         completed_at := Some now\<rparr>),
                    disk = files'\<rparr>))"

section \<open>Notions used to state the properties\<close>

fun ve_index :: "ValidationError \<Rightarrow> int" where "ve_index (ValidationError i f m) = i"
fun ve_field :: "ValidationError \<Rightarrow> pystr" where "ve_field (ValidationError i f m) = f"
definition on_target_path :: "int \<Rightarrow> ValidationError \<Rightarrow> bool" where
  "on_target_path i e \<longleftrightarrow> ve_index e = i \<and> ve_field e = ustr ''target_path''"

text \<open>Example data for the instances below.\<close>

definition ex_none :: "pystr \<Rightarrow> pystr option" where
  "ex_none p = None"

definition ex_bad_rules :: "rule list" where
  "ex_bad_rules = [ScriptRule (ustr ''/etc/../x'') (ustr ''a'') (ustr ''b'') False]"

definition ex_files :: fs where
  "ex_files =
     [[ustr ''cache''] \<mapsto> Dir,
      [ustr ''cache'', ustr ''a''] \<mapsto> Dir,
      [ustr ''cache'', ustr ''a'', ustr ''decompiled''] \<mapsto> Dir,
      [ustr ''cache'', ustr ''a'', ustr ''decompiled'', ustr ''res''] \<mapsto> Dir,
      [ustr ''cache'', ustr ''a'', ustr ''decompiled'', ustr ''f''] \<mapsto>
        File [0x61, 0x0D, 0x0A, 0x62]]"

definition ex_tool_ok :: tool where
  "ex_tool_ok files src out = (0, [], files(out \<mapsto> File []))"

definition ex_tool_fail :: tool where
  "ex_tool_fail files src out = (1, ustr '' brut: error '', files)"

definition ex_re_sub :: "pystr \<Rightarrow> pystr \<Rightarrow> pystr \<Rightarrow> exn + pystr" where
  "ex_re_sub p r s = Inr s"

definition ex_task :: task where
  "ex_task = \<lparr>apk_id = ustr ''a'', status = PENDING, created_at = 0, completed_at = None,
     download_url = None, rule_results = [], error = None\<rparr>"

definition ex_world :: world where
  "ex_world = \<lparr>tasks = [ustr ''t'' \<mapsto> ex_task], disk = ex_files\<rparr>"

definition ex_missing_rules :: "rule list" where
  "ex_missing_rules =
     [ScriptRule (ustr ''missing1.txt'') (ustr ''a'') (ustr ''b'') False,
      ImageRule (ustr ''missing2.png'') (ustr ''QUJD'')]"

text \<open>A rule that passes the path checks of the validator.\<close>

definition good_rule :: "rule \<Rightarrow> bool" where
  "good_rule r \<longleftrightarrow>
     \<not> is_OtherRule r \<and> \<not> str_contains (ustr ''..'') (target_path r) \<and>
     \<not> startswith (target_path r) (ustr ''/'')"

definition ex_escaping_rules :: "rule list" where
  "ex_escaping_rules = [ImageRule (ustr ''../../../cache/a/decompiled/f'') (ustr ''QUJD'')]"

definition ex_good_rules :: "rule list" where
  "ex_good_rules = [ImageRule (ustr ''f'') (ustr ''QUJD'')]"

text \<open>A file name of 256 letters \<open>a\<close>, one more than a directory accepts.\<close>

definition ex_long_name :: pystr where
  "ex_long_name = replicate 256 97"

definition ex_long_rules :: "rule list" where
  "ex_long_rules =
     [ScriptRule ex_long_name (ustr ''x'') (ustr ''y'') False,
      ImageRule (ustr ''f'') (ustr ''QUJD'')]"

section \<open>Validation\<close>

lemma field_names_distinct:
  "ustr ''pattern'' \<noteq> ustr ''target_path''" "ustr ''image_data'' \<noteq> ustr ''target_path''"
  by (simp_all add: ustr_def)

lemma filter_script_rule: "filter (on_target_path i) (validate_script_rule rc j r) = []"
  by (cases "pattern r = [] \<or> strip (pattern r) = []"; cases "use_regex r"; cases "rc (pattern r)")
     (simp_all add: validate_script_rule_def on_target_path_def field_names_distinct)

lemma filter_image_rule: "filter (on_target_path i) (validate_image_rule j r) = []"
  by (cases "image_data r = [] \<or> strip (image_data r) = []"; cases "b64decode (image_data r) True")
     (simp_all add: validate_image_rule_def on_target_path_def field_names_distinct)

lemma filter_target_path_other:
  "j \<noteq> i \<Longrightarrow> filter (on_target_path i) (validate_target_path j tp) = []"
  by (simp add: validate_target_path_def on_target_path_def)

lemma filter_target_path_same:
  "filter (on_target_path i) (validate_target_path i tp) = validate_target_path i tp"
  by (simp add: validate_target_path_def on_target_path_def)

lemma validate_target_path_both:
  assumes "strip tp \<noteq> []" "str_contains (ustr ''..'') tp" "startswith tp (ustr ''/'')"
  shows "validate_target_path j tp =
    [ValidationError j (ustr ''target_path'') msg_target_path_dotdot,
     ValidationError j (ustr ''target_path'') msg_target_path_absolute]"
  using assms by (auto simp: validate_target_path_def strip_def)

lemma validate_from_Cons:
  assumes "validate_from rc k (r # rules) = Inr errs"
  obtains rest where "validate_from rc (Suc k) rules = Inr rest"
    and "errs = validate_target_path (int k) (target_path r) @
           (case r of ScriptRule _ _ _ _ \<Rightarrow> validate_script_rule rc (int k) r
                    | ImageRule _ _ \<Rightarrow> validate_image_rule (int k) r
                    | OtherRule _ \<Rightarrow> []) @ rest"
    and "\<not> is_OtherRule r"
  using assms by (cases r; cases "validate_from rc (Suc k) rules") simp_all

lemma filter_rule_errors:
  "filter (on_target_path j)
      (case r of ScriptRule _ _ _ _ \<Rightarrow> validate_script_rule rc k r
               | ImageRule _ _ \<Rightarrow> validate_image_rule k r
               | OtherRule _ \<Rightarrow> []) = []"
  by (cases r) (simp_all add: filter_script_rule filter_image_rule)

lemma validate_from_later:
  "validate_from rc k rules = Inr errs \<Longrightarrow> i < int k \<Longrightarrow> filter (on_target_path i) errs = []"
proof (induction rules arbitrary: k errs)
  case Nil
  then show ?case by simp
next
  case (Cons r rules)
  from Cons.prems(1) obtain rest where
    rest: "validate_from rc (Suc k) rules = Inr rest"
    and errs: "errs = validate_target_path (int k) (target_path r) @
           (case r of ScriptRule _ _ _ _ \<Rightarrow> validate_script_rule rc (int k) r
                    | ImageRule _ _ \<Rightarrow> validate_image_rule (int k) r
                    | OtherRule _ \<Rightarrow> []) @ rest"
    by (rule validate_from_Cons)
  from Cons.IH[OF rest] Cons.prems(2) have "filter (on_target_path i) rest = []" by simp
  with Cons.prems(2) show ?case
    unfolding errs filter_append by (simp only: filter_rule_errors filter_target_path_other append_Nil)
qed

lemma validate_from_at:
  "validate_from rc k rules = Inr errs \<Longrightarrow> i < length rules \<Longrightarrow>
   filter (on_target_path (int (k + i))) errs =
     validate_target_path (int (k + i)) (target_path (rules ! i))"
proof (induction rules arbitrary: k errs i)
  case Nil
  then show ?case by simp
next
  case (Cons r rules)
  from Cons.prems(1) obtain rest where
    rest: "validate_from rc (Suc k) rules = Inr rest"
    and errs: "errs = validate_target_path (int k) (target_path r) @
           (case r of ScriptRule _ _ _ _ \<Rightarrow> validate_script_rule rc (int k) r
                    | ImageRule _ _ \<Rightarrow> validate_image_rule (int k) r
                    | OtherRule _ \<Rightarrow> []) @ rest"
    by (rule validate_from_Cons)
  show ?case
  proof (cases i)
    case 0
    have "filter (on_target_path (int k)) rest = []"
      using validate_from_later[OF rest, of "int k"] by simp
    with 0 show ?thesis
      unfolding errs filter_append
      by (simp only: filter_rule_errors filter_target_path_same append_Nil append_Nil2
            add_0_right nth_Cons_0)
  next
    case (Suc i')
    with Cons.prems(2) have "i' < length rules" by simp
    from Cons.IH[OF rest this]
    have ih: "filter (on_target_path (int (Suc k + i'))) rest =
            validate_target_path (int (Suc k + i')) (target_path (rules ! i'))" .
    have a: "filter (on_target_path (int (k + i))) (validate_target_path (int k) (target_path r)) = []"
      using Suc by (intro filter_target_path_other) simp
    have c: "filter (on_target_path (int (k + i))) rest =
            validate_target_path (int (k + i)) (target_path (rules ! i'))"
      using ih Suc by simp
    have d: "(r # rules) ! i = rules ! i'" using Suc by simp
    show ?thesis
      unfolding errs filter_append a filter_rule_errors c d by simp
  qed
qed

text \<open>
  C7. A rule whose \<open>target_path\<close> is not blank, contains \<open>..\<close> and starts with a slash gets
  two errors on the field \<open>target_path\<close> from \<open>validate_rules\<close>, both under the rule's
  position: first the one for the parent-directory segment, then the one for the absolute
  path. They are the only errors on that field for that rule, and the batch is invalid.
\<close>

theorem validate_reports_both_path_errors:
  assumes "validate_rules rc rules = Inr res"
    and "i < length rules"
    and "strip (target_path (rules ! i)) \<noteq> []"
    and "str_contains (ustr ''..'') (target_path (rules ! i))"
    and "startswith (target_path (rules ! i)) (ustr ''/'')"
  shows "filter (on_target_path (int i)) (errors res) =
           [ValidationError (int i) (ustr ''target_path'') msg_target_path_dotdot,
            ValidationError (int i) (ustr ''target_path'') msg_target_path_absolute]
         \<and> \<not> valid res"
proof -
  from assms(1) obtain errs where
    errs: "validate_from rc 0 rules = Inr errs"
    and res: "res = \<lparr>valid = (length errs = 0), errors = errs\<rparr>"
    by (cases "validate_from rc 0 rules") (auto simp: validate_rules_def)
  have "filter (on_target_path (int i)) errs =
          validate_target_path (int i) (target_path (rules ! i))"
    using validate_from_at[OF errs assms(2)] by simp
  then have f: "filter (on_target_path (int i)) errs =
           [ValidationError (int i) (ustr ''target_path'') msg_target_path_dotdot,
            ValidationError (int i) (ustr ''target_path'') msg_target_path_absolute]"
    using validate_target_path_both[OF assms(3-5)] by simp
  then have "errs \<noteq> []" by (cases errs) simp_all
  with f res show ?thesis by simp
qed

theorem validate_reports_both_path_errors_witness:
  "(0::nat) < length ex_bad_rules \<and>
   strip (target_path (ex_bad_rules ! 0)) \<noteq> [] \<and>
   str_contains (ustr ''..'') (target_path (ex_bad_rules ! 0)) \<and>
   startswith (target_path (ex_bad_rules ! 0)) (ustr ''/'') \<and>
   filter (on_target_path 0) (errors (projr (validate_rules ex_none ex_bad_rules))) =
     [ValidationError 0 (ustr ''target_path'') msg_target_path_dotdot,
      ValidationError 0 (ustr ''target_path'') msg_target_path_absolute] \<and>
   \<not> valid (projr (validate_rules ex_none ex_bad_rules))"
proof -
  have h1: "validate_rules ex_none ex_bad_rules = Inr (projr (validate_rules ex_none ex_bad_rules))"
    by (simp add: validate_rules_def ex_bad_rules_def split: sum.split)
  have h2: "(0::nat) < length ex_bad_rules"
    by (simp add: ex_bad_rules_def)
  have h3: "strip (target_path (ex_bad_rules ! 0)) \<noteq> []"
    by (simp add: ex_bad_rules_def strip_def ustr_def isspace_def)
  have h4: "str_contains (ustr ''..'') (target_path (ex_bad_rules ! 0))"
    by (simp add: ex_bad_rules_def ustr_def)
  have h5: "startswith (target_path (ex_bad_rules ! 0)) (ustr ''/'')"
    by (simp add: ex_bad_rules_def ustr_def startswith_def)
  from validate_reports_both_path_errors [OF h1 h2 h3 h4 h5] h2 h3 h4 h5
  show ?thesis by simp
qed

section \<open>The rule loop and the pipeline\<close>

lemma str_contains_sublist: "str_contains p s \<longleftrightarrow> sublist p s"
  by (induction s) (auto simp: sublist_Cons_right)

lemma str_contains_append: "str_contains p (a @ p @ b)"
  by (simp add: str_contains_sublist)

lemma str_contains_suffix: "str_contains p (a @ p)"
  using str_contains_append [of p a "[]"] by simp

lemma apply_rule_other:
  "apply_rule rs f d i (OtherRule n) =
     (Inr \<lparr>rule_index = int i, success = False, message = msg_unknown_rule @ n\<rparr>, f)"
  by (simp add: apply_rule_def)

lemma apply_rule_index:
  "apply_rule rs f d i r = (Inr result, f') \<Longrightarrow> rule_index result = int i"
  by (cases r) (auto simp: apply_rule_def split: prod.splits sum.splits)

lemma apply_rules_Cons_Inr:
  assumes "apply_rule rs f d i r = (Inr result, f1)"
  shows "apply_rules rs f d i (r # rules) =
     (case apply_rules rs f1 d (Suc i) rules of
        (Inl e, f2) \<Rightarrow> (Inl e, f2)
      | (Inr results, f2) \<Rightarrow> (Inr (result # results), f2))"
  using assms by simp

lemma apply_rules_Cons_Inl:
  assumes "apply_rule rs f d i r = (Inl e, f1)"
  shows "apply_rules rs f d i (r # rules) = (Inl e, f1)"
  using assms by simp

lemma apply_rules_Cons_cases:
  assumes "apply_rules rs f d i (r # rules) = (Inr results, f2)"
  obtains result f1 rest where "apply_rule rs f d i r = (Inr result, f1)"
    and "apply_rules rs f1 d (Suc i) rules = (Inr rest, f2)"
    and "results = result # rest"
  using assms by (auto split: prod.splits sum.splits)

lemma apply_rules_length:
  "apply_rules rs f d i rules = (Inr results, f') \<Longrightarrow> length results = length rules"
proof (induction rules arbitrary: f i results)
  case Nil
  then show ?case by simp
next
  case (Cons r rules)
  from Cons.prems obtain result f1 rest where
    "apply_rules rs f1 d (Suc i) rules = (Inr rest, f')" "results = result # rest"
    by (rule apply_rules_Cons_cases)
  with Cons.IH show ?case by simp
qed

lemma apply_rules_append:
  assumes "apply_rules rs f d i xs = (Inr rx, f1)"
  shows "apply_rules rs f d i (xs @ ys) =
     (case apply_rules rs f1 d (i + length xs) ys of
        (Inl e, f2) \<Rightarrow> (Inl e, f2)
      | (Inr ry, f2) \<Rightarrow> (Inr (rx @ ry), f2))"
  using assms
proof (induction xs arbitrary: f i rx)
  case Nil
  then show ?case by (simp split: prod.split sum.split)
next
  case (Cons r xs)
  from Cons.prems obtain result g rest where
    r: "apply_rule rs f d i r = (Inr result, g)"
    and rest: "apply_rules rs g d (Suc i) xs = (Inr rest, f1)"
    and rx: "rx = result # rest"
    by (rule apply_rules_Cons_cases)
  from Cons.IH [OF rest] r rx show ?case
    by (simp split: prod.split sum.split)
qed

lemma apply_rules_nth:
  assumes "apply_rules rs f d i rules = (Inr results, f')" and "j < length rules"
  shows "\<exists>g g'. apply_rules rs f d i (take j rules) = (Inr (take j results), g) \<and>
           apply_rule rs g d (i + j) (rules ! j) = (Inr (results ! j), g')"
  using assms
proof (induction rules arbitrary: f i j results)
  case Nil
  then show ?case by simp
next
  case (Cons r rules)
  from Cons.prems(1) obtain result f1 rest where
    r: "apply_rule rs f d i r = (Inr result, f1)"
    and rest: "apply_rules rs f1 d (Suc i) rules = (Inr rest, f')"
    and res: "results = result # rest"
    by (rule apply_rules_Cons_cases)
  show ?case
  proof (cases j)
    case 0
    with r res show ?thesis by simp
  next
    case (Suc j')
    with Cons.prems(2) have "j' < length rules" by simp
    from Cons.IH [OF rest this] obtain g g' where
      "apply_rules rs f1 d (Suc i) (take j' rules) = (Inr (take j' rest), g)"
      "apply_rule rs g d (Suc i + j') (rules ! j') = (Inr (rest ! j'), g')"
      by blast
    with r res Suc show ?thesis by simp
  qed
qed

lemma apply_rules_index:
  assumes "apply_rules rs f d i rules = (Inr results, f')" and "j < length rules"
  shows "rule_index (results ! j) = int (i + j)"
  using apply_rules_nth [OF assms] apply_rule_index by blast

lemma process_task_ok:
  assumes "copy_cache_to_workdir files cache_dir work_dir = Inr files1"
    and "apply_rules rs files1 (work_dir @ [ustr ''decompiled'']) 0 rules = (Inr results, files2)"
    and "recompile apktool files2 (work_dir @ [ustr ''decompiled'']) output_path = (Inr (), files3)"
  shows "process_task rs apktool files cache_dir work_dir output_path rules = (Inr results, files3)"
  using assms by (simp add: process_task_def)

lemma process_task_rule_raised:
  assumes "copy_cache_to_workdir files cache_dir work_dir = Inr files1"
    and "apply_rules rs files1 (work_dir @ [ustr ''decompiled'']) 0 rules = (Inl e, files2)"
  shows "process_task rs apktool files cache_dir work_dir output_path rules = (Inl e, files2)"
  using assms by (simp add: process_task_def)

lemma process_task_recompile_failed:
  assumes "copy_cache_to_workdir files cache_dir work_dir = Inr files1"
    and "apply_rules rs files1 (work_dir @ [ustr ''decompiled'']) 0 rules = (Inr results, files2)"
    and "recompile apktool files2 (work_dir @ [ustr ''decompiled'']) output_path = (Inl e, files3)"
  shows "process_task rs apktool files cache_dir work_dir output_path rules =
           (Inl e, rmtree files3 work_dir)"
  using assms by (simp add: process_task_def)

lemma run_task_result:
  assumes "tasks w task_id = Some t"
    and "process_task rs apktool (disk w) (get_cache_dir base_dir aid)
           (get_work_dir base_dir task_id) (get_output_path base_dir task_id) rules = (res, files')"
  shows "run_task rs apktool base_dir now w task_id aid rules =
     Inr \<lparr>tasks = (tasks w)(task_id \<mapsto>
            (case res of
               Inr results \<Rightarrow>
                 t\<lparr>status := COMPLETED,
                    download_url := Some (ustr ''/api/v1/download/'' @ task_id),
                    rule_results := results,
                    completed_at := Some now\<rparr>
             | Inl e \<Rightarrow>
                 t\<lparr>status := FAILED, error := Some (exn_text e), completed_at := Some now\<rparr>)),
          disk = files'\<rparr>"
  using assms by (cases res) (simp_all add: run_task_def)

lemmas eval_defs = copy_cache_to_workdir_def copytree_def get_cache_dir_def get_work_dir_def
  get_output_path_def joinpath_def startswith_def path_parts_def ustr_def node_at_def
  process_task_def apply_rule_def apply_script_rule_def apply_image_rule_def path_exists_def
  stat_def too_long_def name_max_def path_max_def path_str_def
  read_text_def read_bytes_def write_text_def write_bytes_def open_w_def recompile_def rmtree_def
  replace_def utf8_encode_cp_def is_cont_def second_ok_def script_failure_def image_failure_def
  b64decode_def a2b_base64_def b64_value_def strip_def isspace_def run_task_def
  ex_files_def ex_tool_ok_def ex_tool_fail_def ex_re_sub_def ex_task_def ex_world_def
  ex_missing_rules_def

text \<open>The name of 256 letters: what the validator and the file system make of it.\<close>

lemma fs_length_replicate: "fs_length (replicate n 97) = Some n"
  by (induction n) (simp_all add: utf8_encode_cp_def)

lemma long_name_facts:
  "fs_length ex_long_name = Some 256"
  "ex_long_name \<noteq> []"
  "ex_long_name \<noteq> [46]"
  "ex_long_name \<noteq> [46, 46]"
  "dropWhile isspace ex_long_name = ex_long_name"
  "rev ex_long_name = ex_long_name"
  "\<not> str_contains [46, 46] ex_long_name"
  "\<not> prefix [47] ex_long_name"
  "split_slash ex_long_name = [ex_long_name]"
proof -
  show "fs_length ex_long_name = Some 256"
    unfolding ex_long_name_def by (rule fs_length_replicate)
  have len: "length ex_long_name = 256"
    by (simp add: ex_long_name_def)
  show "ex_long_name \<noteq> []"
    using len by auto
  show "ex_long_name \<noteq> [46]"
  proof
    assume "ex_long_name = [46]"
    then have "length ex_long_name = length [46 :: nat]" by (rule arg_cong)
    with len show False by simp
  qed
  show "ex_long_name \<noteq> [46, 46]"
  proof
    assume "ex_long_name = [46, 46]"
    then have "length ex_long_name = length [46 :: nat, 46]" by (rule arg_cong)
    with len show False by simp
  qed
  show "dropWhile isspace ex_long_name = ex_long_name"
    by (simp add: ex_long_name_def isspace_def)
  show "rev ex_long_name = ex_long_name"
    by (simp add: ex_long_name_def)
  have "\<not> sublist [46, 46] (replicate n (97 :: nat))" for n :: nat
    by (induction n) (simp_all add: sublist_Cons_right)
  then show "\<not> str_contains [46, 46] ex_long_name"
    by (simp add: str_contains_sublist ex_long_name_def)
  have "replicate 256 97 = (97 :: nat) # replicate 255 97"
    by (simp add: replicate_Suc [symmetric] del: replicate_Suc)
  then show "\<not> prefix [47] ex_long_name"
    by (simp add: ex_long_name_def)
  have "split_slash (replicate n (97 :: nat)) = [replicate n 97]" for n :: nat
    by (induction n) simp_all
  then show "split_slash ex_long_name = [ex_long_name]"
    by (simp add: ex_long_name_def)
qed

lemma long_name_neq:
  "length s < 256 \<Longrightarrow> ex_long_name \<noteq> s"
  "length s < 256 \<Longrightarrow> s \<noteq> ex_long_name"
  by (auto simp: ex_long_name_def)

text \<open>
  C1. The claim asks that no failure of a single rule stop the loop. Both appliers test
  \<open>target_file.exists()\<close> before they enter their \<open>try\<close> block, and \<open>exists()\<close> raises for a
  name that the file system refuses. The rule list below passes \<open>validate_rules\<close>; the target
  of its first rule is a name of 256 letters. The copy succeeds, and the tool would succeed,
  as the same task with the second rule alone shows. With both rules the first applier raises
  \<open>OSError\<close>, the loop ends without a result for either rule, \<open>process_task\<close> raises and leaves
  the workspace behind, and the runner marks the task \<open>FAILED\<close>.
\<close>

theorem long_target_name_stops_the_loop:
  "validate_rules ex_none ex_long_rules = Inr \<lparr>valid = True, errors = []\<rparr> \<and>
   \<not> isl (copy_cache_to_workdir (disk ex_world) (get_cache_dir [] (ustr ''a''))
            (get_work_dir [] (ustr ''t''))) \<and>
   map success (projr (fst (process_task ex_re_sub ex_tool_ok (disk ex_world)
     (get_cache_dir [] (ustr ''a'')) (get_work_dir [] (ustr ''t''))
     (get_output_path [] (ustr ''t'')) (tl ex_long_rules)))) = [True] \<and>
   fst (process_task ex_re_sub ex_tool_ok (disk ex_world) (get_cache_dir [] (ustr ''a''))
          (get_work_dir [] (ustr ''t'')) (get_output_path [] (ustr ''t'')) ex_long_rules) =
     Inl (OSError 36 ''File name too long''
            (path_str (get_work_dir [] (ustr ''t'') @ [ustr ''decompiled'', ex_long_name]))) \<and>
   node_at (snd (process_task ex_re_sub ex_tool_ok (disk ex_world) (get_cache_dir [] (ustr ''a''))
          (get_work_dir [] (ustr ''t'')) (get_output_path [] (ustr ''t'')) ex_long_rules))
     (get_work_dir [] (ustr ''t'')) = Some Dir \<and>
   map_option status
     (tasks (projr (run_task ex_re_sub ex_tool_ok [] 7 ex_world (ustr ''t'') (ustr ''a'')
                      ex_long_rules)) (ustr ''t'')) = Some FAILED \<and>
   map_option rule_results
     (tasks (projr (run_task ex_re_sub ex_tool_ok [] 7 ex_world (ustr ''t'') (ustr ''a'')
                      ex_long_rules)) (ustr ''t'')) = Some []"
proof -
  have v: "validate_rules ex_none ex_long_rules = Inr \<lparr>valid = True, errors = []\<rparr>"
    by (simp add: ex_long_rules_def ex_none_def validate_rules_def validate_target_path_def
        validate_script_rule_def validate_image_rule_def eval_defs long_name_facts long_name_neq)
  have c: "\<not> isl (copy_cache_to_workdir (disk ex_world) (get_cache_dir [] (ustr ''a''))
            (get_work_dir [] (ustr ''t'')))"
    by (simp add: eval_defs)
  have one: "map success (projr (fst (process_task ex_re_sub ex_tool_ok (disk ex_world)
     (get_cache_dir [] (ustr ''a'')) (get_work_dir [] (ustr ''t''))
     (get_output_path [] (ustr ''t'')) (tl ex_long_rules)))) = [True]"
    by (simp add: ex_long_rules_def eval_defs)
  have pt: "fst (process_task ex_re_sub ex_tool_ok (disk ex_world) (get_cache_dir [] (ustr ''a''))
          (get_work_dir [] (ustr ''t'')) (get_output_path [] (ustr ''t'')) ex_long_rules) =
     Inl (OSError 36 ''File name too long''
            (path_str (get_work_dir [] (ustr ''t'') @ [ustr ''decompiled'', ex_long_name])))"
    by (simp add: ex_long_rules_def eval_defs long_name_facts long_name_neq)
  have ws: "node_at (snd (process_task ex_re_sub ex_tool_ok (disk ex_world)
          (get_cache_dir [] (ustr ''a''))
          (get_work_dir [] (ustr ''t'')) (get_output_path [] (ustr ''t'')) ex_long_rules))
     (get_work_dir [] (ustr ''t'')) = Some Dir"
    by (simp add: ex_long_rules_def eval_defs long_name_facts long_name_neq)
  have st: "map_option status
     (tasks (projr (run_task ex_re_sub ex_tool_ok [] 7 ex_world (ustr ''t'') (ustr ''a'')
                      ex_long_rules)) (ustr ''t'')) = Some FAILED"
    by (simp add: ex_long_rules_def eval_defs long_name_facts long_name_neq)
  have rr: "map_option rule_results
     (tasks (projr (run_task ex_re_sub ex_tool_ok [] 7 ex_world (ustr ''t'') (ustr ''a'')
                      ex_long_rules)) (ustr ''t'')) = Some []"
    by (simp add: ex_long_rules_def eval_defs long_name_facts long_name_neq)
  show ?thesis
    by (intro conjI v c one pt ws st rr)
qed

text \<open>
  C4. The claim asks that a rule whose target does not exist get a failure result and never
  raise. Nothing exists under the name of 256 letters, and no file of that name can exist:
  the directory refuses the name, \<open>exists()\<close> raises \<open>OSError\<close> instead of answering \<open>False\<close>,
  and since the test stands before the \<open>try\<close> block the exception leaves the applier. Both
  appliers raise; the loop ends at that rule and the rule after it is not applied.
\<close>

theorem long_target_name_raises_in_the_appliers:
  "validate_rules ex_none [ImageRule ex_long_name (ustr ''QUJD''), ImageRule (ustr ''f'') (ustr ''QUJD'')] =
     Inr \<lparr>valid = True, errors = []\<rparr> \<and>
   node_at ex_files
     (joinpath [ustr ''cache'', ustr ''a'', ustr ''decompiled''] ex_long_name) = None \<and>
   path_exists ex_files
     (joinpath [ustr ''cache'', ustr ''a'', ustr ''decompiled''] ex_long_name) =
     Inl (OSError 36 ''File name too long''
            (path_str [ustr ''cache'', ustr ''a'', ustr ''decompiled'', ex_long_name])) \<and>
   apply_script_rule ex_re_sub ex_files [ustr ''cache'', ustr ''a'', ustr ''decompiled'']
     (ScriptRule ex_long_name (ustr ''x'') (ustr ''y'') False) =
     (Inl (OSError 36 ''File name too long''
            (path_str [ustr ''cache'', ustr ''a'', ustr ''decompiled'', ex_long_name])), ex_files) \<and>
   apply_image_rule ex_files [ustr ''cache'', ustr ''a'', ustr ''decompiled'']
     (ImageRule ex_long_name (ustr ''QUJD'')) =
     (Inl (OSError 36 ''File name too long''
            (path_str [ustr ''cache'', ustr ''a'', ustr ''decompiled'', ex_long_name])), ex_files) \<and>
   apply_rules ex_re_sub ex_files [ustr ''cache'', ustr ''a'', ustr ''decompiled''] 0
     [ImageRule ex_long_name (ustr ''QUJD''), ImageRule (ustr ''f'') (ustr ''QUJD'')] =
     (Inl (OSError 36 ''File name too long''
            (path_str [ustr ''cache'', ustr ''a'', ustr ''decompiled'', ex_long_name])), ex_files) \<and>
   map success (projr (fst (apply_rules ex_re_sub ex_files
     [ustr ''cache'', ustr ''a'', ustr ''decompiled''] 0
     [ImageRule (ustr ''f'') (ustr ''QUJD'')]))) = [True]"
proof -
  have v: "validate_rules ex_none
      [ImageRule ex_long_name (ustr ''QUJD''), ImageRule (ustr ''f'') (ustr ''QUJD'')] =
     Inr \<lparr>valid = True, errors = []\<rparr>"
    by (simp add: ex_none_def validate_rules_def validate_target_path_def
        validate_image_rule_def eval_defs long_name_facts long_name_neq)
  have n: "node_at ex_files
     (joinpath [ustr ''cache'', ustr ''a'', ustr ''decompiled''] ex_long_name) = None"
    by (simp add: eval_defs long_name_facts long_name_neq)
  have e: "path_exists ex_files
     (joinpath [ustr ''cache'', ustr ''a'', ustr ''decompiled''] ex_long_name) =
     Inl (OSError 36 ''File name too long''
            (path_str [ustr ''cache'', ustr ''a'', ustr ''decompiled'', ex_long_name]))"
    by (simp add: eval_defs long_name_facts long_name_neq)
  have s: "apply_script_rule ex_re_sub ex_files [ustr ''cache'', ustr ''a'', ustr ''decompiled'']
     (ScriptRule ex_long_name (ustr ''x'') (ustr ''y'') False) =
     (Inl (OSError 36 ''File name too long''
            (path_str [ustr ''cache'', ustr ''a'', ustr ''decompiled'', ex_long_name])), ex_files)"
    using e by (simp add: apply_script_rule_def)
  have i: "apply_image_rule ex_files [ustr ''cache'', ustr ''a'', ustr ''decompiled'']
     (ImageRule ex_long_name (ustr ''QUJD'')) =
     (Inl (OSError 36 ''File name too long''
            (path_str [ustr ''cache'', ustr ''a'', ustr ''decompiled'', ex_long_name])), ex_files)"
    using e by (simp add: apply_image_rule_def)
  have l: "apply_rules ex_re_sub ex_files [ustr ''cache'', ustr ''a'', ustr ''decompiled''] 0
     [ImageRule ex_long_name (ustr ''QUJD''), ImageRule (ustr ''f'') (ustr ''QUJD'')] =
     (Inl (OSError 36 ''File name too long''
            (path_str [ustr ''cache'', ustr ''a'', ustr ''decompiled'', ex_long_name])), ex_files)"
    using i by (simp add: apply_rule_def)
  have o: "map success (projr (fst (apply_rules ex_re_sub ex_files
     [ustr ''cache'', ustr ''a'', ustr ''decompiled''] 0
     [ImageRule (ustr ''f'') (ustr ''QUJD'')]))) = [True]"
    by (simp add: eval_defs)
  show ?thesis
    by (intro conjI v n e s i l o)
qed

text \<open>
  C9. An element of the rule list that is neither a script rule nor an image rule does not
  make the loop raise: whatever the files and the position, the pass for it yields a failure
  result under that position, with a message that names its class, and leaves the files
  alone. The loop then applies the remaining rules: when the rules before and after it raise
  nothing, and the copy and the recompile succeed, \<open>process_task\<close> returns the results of the
  rules before it, its failure, and the results of the rules after it.
\<close>

theorem unknown_rule_is_recorded_as_failure:
  assumes "copy_cache_to_workdir files cache_dir work_dir = Inr files1"
    and "apply_rules rs files1 (work_dir @ [ustr ''decompiled'']) 0 pre = (Inr before, files2)"
    and "apply_rules rs files2 (work_dir @ [ustr ''decompiled'']) (Suc (length pre)) post =
           (Inr after, files2')"
    and "recompile apktool files2' (work_dir @ [ustr ''decompiled'']) output_path = (Inr (), files3)"
  shows "\<exists>results.
      (\<forall>g i. apply_rule rs g (work_dir @ [ustr ''decompiled'']) i (OtherRule n) =
         (Inr \<lparr>rule_index = int i, success = False, message = msg_unknown_rule @ n\<rparr>, g)) \<and>
      process_task rs apktool files cache_dir work_dir output_path (pre @ OtherRule n # post)
        = (Inr results, files3) \<and>
      length results = length pre + 1 + length post \<and>
      results ! length pre =
        \<lparr>rule_index = int (length pre), success = False, message = msg_unknown_rule @ n\<rparr> \<and>
      str_contains n (message (results ! length pre)) \<and>
      take (length pre) results = before \<and>
      drop (Suc (length pre)) results = after"
proof -
  let ?d = "work_dir @ [ustr ''decompiled'']"
  let ?u = "\<lparr>rule_index = int (length pre), success = False, message = msg_unknown_rule @ n\<rparr>"
  let ?results = "before @ ?u # after"
  have tail: "apply_rules rs files2 ?d (length pre) (OtherRule n # post) = (Inr (?u # after), files2')"
    using assms(3) by (simp add: apply_rule_other)
  have loop: "apply_rules rs files1 ?d 0 (pre @ OtherRule n # post) = (Inr ?results, files2')"
    using apply_rules_append [OF assms(2), of "OtherRule n # post"] tail by simp
  have pt: "process_task rs apktool files cache_dir work_dir output_path (pre @ OtherRule n # post)
        = (Inr ?results, files3)"
    using assms(1) loop assms(4) by (rule process_task_ok)
  have lb: "length before = length pre"
    using assms(2) by (rule apply_rules_length)
  have la: "length after = length post"
    using assms(3) by (rule apply_rules_length)
  have "length ?results = length pre + 1 + length post"
    using lb la by simp
  moreover have "?results ! length pre = ?u"
    using lb by (simp add: nth_append)
  moreover have "take (length pre) ?results = before"
    using lb by simp
  moreover have "drop (Suc (length pre)) ?results = after"
    using lb by simp
  ultimately show ?thesis
    using pt by (simp add: str_contains_suffix apply_rule_other)
qed

theorem unknown_rule_is_recorded_as_failure_witness:
  "\<not> isl (copy_cache_to_workdir ex_files [ustr ''cache'', ustr ''a''] [ustr ''w'', ustr ''t'']) \<and>
   (\<exists>results.
      fst (process_task ex_re_sub ex_tool_ok ex_files [ustr ''cache'', ustr ''a'']
        [ustr ''w'', ustr ''t''] [ustr ''o'', ustr ''t.apk'']
        ([ScriptRule (ustr ''missing1.txt'') (ustr ''a'') (ustr ''b'') False] @
          OtherRule (ustr ''dict'') # [ImageRule (ustr ''f'') (ustr ''QUJD'')])) = Inr results \<and>
      length results = 3 \<and>
      results ! 1 =
        \<lparr>rule_index = 1, success = False, message = msg_unknown_rule @ ustr ''dict''\<rparr> \<and>
      map success (take 1 results) = [False] \<and>
      map success (drop 2 results) = [True])"
proof -
  let ?copy = "copy_cache_to_workdir ex_files [ustr ''cache'', ustr ''a''] [ustr ''w'', ustr ''t'']"
  let ?pre = "[ScriptRule (ustr ''missing1.txt'') (ustr ''a'') (ustr ''b'') False]"
  let ?post = "[ImageRule (ustr ''f'') (ustr ''QUJD'')]"
  let ?d = "[ustr ''w'', ustr ''t''] @ [ustr ''decompiled'']"
  let ?l1 = "apply_rules ex_re_sub (projr ?copy) ?d 0 ?pre"
  let ?l2 = "apply_rules ex_re_sub (snd ?l1) ?d (Suc (length ?pre)) ?post"
  let ?rec = "recompile ex_tool_ok (snd ?l2) ?d [ustr ''o'', ustr ''t.apk'']"
  have h1: "?copy = Inr (projr ?copy)"
    by (simp add: eval_defs)
  have e2: "fst ?l1 = Inr (projr (fst ?l1))"
    by (simp add: eval_defs)
  have h2: "?l1 = (Inr (projr (fst ?l1)), snd ?l1)"
    by (rule prod_eqI) (simp_all only: fst_conv snd_conv e2 [symmetric])
  have e3: "fst ?l2 = Inr (projr (fst ?l2))"
    by (simp add: eval_defs)
  have h3: "?l2 = (Inr (projr (fst ?l2)), snd ?l2)"
    by (rule prod_eqI) (simp_all only: fst_conv snd_conv e3 [symmetric])
  have h4: "?rec = (Inr (), snd ?rec)"
    by (simp add: eval_defs)
  from unknown_rule_is_recorded_as_failure [OF h1 h2 h3 h4, of "ustr ''dict''"]
  obtain results where r:
    "process_task ex_re_sub ex_tool_ok ex_files [ustr ''cache'', ustr ''a'']
        [ustr ''w'', ustr ''t''] [ustr ''o'', ustr ''t.apk'']
        (?pre @ OtherRule (ustr ''dict'') # ?post) = (Inr results, snd ?rec)"
    "length results = length ?pre + 1 + length ?post"
    "results ! length ?pre =
        \<lparr>rule_index = int (length ?pre), success = False,
         message = msg_unknown_rule @ ustr ''dict''\<rparr>"
    "take (length ?pre) results = projr (fst ?l1)"
    "drop (Suc (length ?pre)) results = projr (fst ?l2)"
    by blast
  define before where "before = projr (fst ?l1)"
  define after where "after = projr (fst ?l2)"
  have evb: "map success before = [False]"
    unfolding before_def by (simp add: eval_defs)
  have eva: "map success after = [True]"
    unfolding after_def by (simp add: eval_defs)
  have "take 1 results = before"
    using r(4) [folded before_def] by simp
  with evb have tm: "map success (take 1 results) = [False]"
    by simp
  have "drop 2 results = after"
    using r(5) [folded after_def] by (simp add: numeral_2_eq_2)
  with eva have dm: "map success (drop 2 results) = [True]"
    by simp
  have l3: "length results = 3"
    using r(2) by simp
  have r1: "results ! 1 =
      \<lparr>rule_index = 1, success = False, message = msg_unknown_rule @ ustr ''dict''\<rparr>"
    using r(3) by simp
  have f: "fst (process_task ex_re_sub ex_tool_ok ex_files [ustr ''cache'', ustr ''a'']
        [ustr ''w'', ustr ''t''] [ustr ''o'', ustr ''t.apk'']
        (?pre @ OtherRule (ustr ''dict'') # ?post)) = Inr results"
    using r(1) by simp
  have c: "\<not> isl ?copy"
    using h1 by (rule ssubst) simp
  show ?thesis
    by (rule conjI [OF c]) (rule exI [of _ results], intro conjI f l3 r1 tm dm)
qed

text \<open>
  C8. Once the runner has found the task record and marked it \<open>PROCESSING\<close>, it returns with
  the record in a terminal state: \<open>COMPLETED\<close> when the pipeline returned, \<open>FAILED\<close> with
  the failure's message in \<open>error\<close> when the pipeline raised.
\<close>

theorem runner_reaches_terminal_state:
  assumes "tasks w task_id = Some t"
  shows "\<exists>w' t'.
      run_task rs apktool base_dir now w task_id aid rules = Inr w' \<and>
      tasks w' task_id = Some t' \<and>
      (status t' = COMPLETED \<or> status t' = FAILED) \<and>
      (\<forall>e files'.
         process_task rs apktool (disk w) (get_cache_dir base_dir aid)
           (get_work_dir base_dir task_id) (get_output_path base_dir task_id) rules = (Inl e, files')
         \<longrightarrow> status t' = FAILED \<and> error t' = Some (exn_text e)) \<and>
      (\<forall>results files'.
         process_task rs apktool (disk w) (get_cache_dir base_dir aid)
           (get_work_dir base_dir task_id) (get_output_path base_dir task_id) rules
           = (Inr results, files')
         \<longrightarrow> status t' = COMPLETED \<and> rule_results t' = results)"
proof -
  obtain res files' where pt:
    "process_task rs apktool (disk w) (get_cache_dir base_dir aid)
       (get_work_dir base_dir task_id) (get_output_path base_dir task_id) rules = (res, files')"
    by (cases "process_task rs apktool (disk w) (get_cache_dir base_dir aid)
       (get_work_dir base_dir task_id) (get_output_path base_dir task_id) rules")
  show ?thesis
  proof (cases res)
    case (Inl e)
    let ?t' = "t\<lparr>status := FAILED, error := Some (exn_text e), completed_at := Some now\<rparr>"
    let ?w' = "\<lparr>tasks = (tasks w)(task_id \<mapsto> ?t'), disk = files'\<rparr>"
    have "run_task rs apktool base_dir now w task_id aid rules = Inr ?w'"
      using run_task_result [OF assms pt, of now] Inl by simp
    moreover have "tasks ?w' task_id = Some ?t'" "status ?t' = FAILED"
      "error ?t' = Some (exn_text e)"
      by simp_all
    ultimately show ?thesis
      using pt Inl by (intro exI [of _ ?w'] exI [of _ ?t']) simp
  next
    case (Inr results)
    let ?t' = "t\<lparr>status := COMPLETED,
                download_url := Some (ustr ''/api/v1/download/'' @ task_id),
                rule_results := results,
                completed_at := Some now\<rparr>"
    let ?w' = "\<lparr>tasks = (tasks w)(task_id \<mapsto> ?t'), disk = files'\<rparr>"
    have "run_task rs apktool base_dir now w task_id aid rules = Inr ?w'"
      using run_task_result [OF assms pt, of now] Inr by simp
    moreover have "tasks ?w' task_id = Some ?t'" "status ?t' = COMPLETED"
      "rule_results ?t' = results"
      by simp_all
    ultimately show ?thesis
      using pt Inr by (intro exI [of _ ?w'] exI [of _ ?t']) simp
  qed
qed

theorem runner_reaches_terminal_state_witness:
  "tasks ex_world (ustr ''t'') = Some ex_task \<and>
   fst (process_task ex_re_sub ex_tool_fail (disk ex_world) (get_cache_dir [] (ustr ''a''))
          (get_work_dir [] (ustr ''t'')) (get_output_path [] (ustr ''t'')) ex_missing_rules) =
     Inl (RuntimeError (msg_recompile_failed 1 (ustr ''brut: error''))) \<and>
   (\<exists>w' t'.
      run_task ex_re_sub ex_tool_fail [] 7 ex_world (ustr ''t'') (ustr ''a'') ex_missing_rules = Inr w' \<and>
      tasks w' (ustr ''t'') = Some t' \<and> status t' = FAILED \<and>
      error t' = Some (msg_recompile_failed 1 (ustr ''brut: error'')))"
proof -
  let ?pt = "process_task ex_re_sub ex_tool_fail (disk ex_world) (get_cache_dir [] (ustr ''a''))
          (get_work_dir [] (ustr ''t'')) (get_output_path [] (ustr ''t'')) ex_missing_rules"
  have h1: "tasks ex_world (ustr ''t'') = Some ex_task"
    by (simp add: ex_world_def)
  have ev: "fst ?pt = Inl (RuntimeError (msg_recompile_failed 1 (ustr ''brut: error'')))"
    by (simp add: eval_defs)
  then have pt: "?pt = (Inl (RuntimeError (msg_recompile_failed 1 (ustr ''brut: error''))), snd ?pt)"
    by (simp add: prod_eq_iff)
  from runner_reaches_terminal_state [OF h1, of ex_re_sub ex_tool_fail "[]" 7 "ustr ''a''"
      ex_missing_rules]
  obtain w' t' where r:
    "run_task ex_re_sub ex_tool_fail [] 7 ex_world (ustr ''t'') (ustr ''a'') ex_missing_rules = Inr w'"
    "tasks w' (ustr ''t'') = Some t'"
    "\<forall>e files'. ?pt = (Inl e, files') \<longrightarrow> status t' = FAILED \<and> error t' = Some (exn_text e)"
    by blast
  from r(3) pt have "status t' = FAILED"
    "error t' = Some (exn_text (RuntimeError (msg_recompile_failed 1 (ustr ''brut: error''))))"
    by blast+
  then have s: "status t' = FAILED" "error t' = Some (msg_recompile_failed 1 (ustr ''brut: error''))"
    by simp_all
  show ?thesis
    by (intro conjI h1 ev exI [of _ w'] exI [of _ t'] r(1) r(2) s)
qed

lemma copy_cache_to_workdir_Inr:
  assumes "copy_cache_to_workdir files cache_dir work_dir = Inr files1"
  shows "node_at files cache_dir = Some Dir" and "node_at files work_dir = None"
    and "work_dir \<noteq> []"
    and "\<exists>filesm. mkdirs files [] work_dir = Inr filesm \<and>
           files1 = (\<lambda>p. if prefix work_dir p \<and> p \<noteq> work_dir
                         then files (cache_dir @ drop (length work_dir) p) else filesm p)"
proof -
  have c: "copytree files cache_dir work_dir = Inr files1"
    using assms by (cases "copytree files cache_dir work_dir") (simp_all add: copy_cache_to_workdir_def)
  show a: "node_at files cache_dir = Some Dir"
    using c by (cases "node_at files cache_dir"; cases "the (node_at files cache_dir)")
      (simp_all add: copytree_def)
  show b: "node_at files work_dir = None"
    using c a by (cases "node_at files work_dir") (simp_all add: copytree_def)
  show "work_dir \<noteq> []"
    using b by (auto simp: node_at_def)
  show "\<exists>filesm. mkdirs files [] work_dir = Inr filesm \<and>
           files1 = (\<lambda>p. if prefix work_dir p \<and> p \<noteq> work_dir
                         then files (cache_dir @ drop (length work_dir) p) else filesm p)"
    using c a b by (cases "mkdirs files [] work_dir") (auto simp: copytree_def)
qed

lemma rmtree_gone:
  assumes "d \<noteq> []"
  shows "node_at (rmtree files d) d \<noteq> Some Dir"
    and "(\<forall>b. files d \<noteq> Some (File b)) \<Longrightarrow> node_at (rmtree files d) d = None"
proof -
  show "node_at (rmtree files d) d \<noteq> Some Dir"
    using assms by (cases "files d"; cases "the (files d)") (simp_all add: rmtree_def node_at_def)
  show "node_at (rmtree files d) d = None" if "\<forall>b. files d \<noteq> Some (File b)"
    using assms that by (cases "files d"; cases "the (files d)") (simp_all add: rmtree_def node_at_def)
qed

lemma recompile_message_has_diagnostic:
  "str_contains error_msg (msg_recompile_failed returncode error_msg)"
  unfolding msg_recompile_failed_def
  by (simp only: append_assoc [symmetric] str_contains_suffix)

text \<open>
  C3. When the copy of the cache has succeeded, the loop over the rules has come to its end
  and the repackaging tool then exits with a status other than zero, the runner marks the
  task \<open>FAILED\<close>; the error message carries the exit status and the text of the tool's error
  stream; and no workspace directory is left when the runner returns: nothing at all is left
  at its place unless the tool itself put a regular file there.
\<close>

theorem recompile_failure_fails_task_and_removes_workspace:
  assumes "tasks w task_id = Some t"
    and "copy_cache_to_workdir (disk w) (get_cache_dir base_dir aid)
           (get_work_dir base_dir task_id) = Inr files1"
    and "apply_rules rs files1 (get_work_dir base_dir task_id @ [ustr ''decompiled'']) 0 rules =
           (Inr results, files1')"
    and "mkdirs files1' [] (butlast (get_output_path base_dir task_id)) = Inr files2"
    and "apktool files2 (get_work_dir base_dir task_id @ [ustr ''decompiled''])
           (get_output_path base_dir task_id) = (returncode, stderr, files3)"
    and "returncode \<noteq> 0"
  shows "\<exists>w' t' msg.
      run_task rs apktool base_dir now w task_id aid rules = Inr w' \<and>
      tasks w' task_id = Some t' \<and> status t' = FAILED \<and> error t' = Some msg \<and>
      msg = msg_recompile_failed returncode (strip stderr) \<and>
      str_contains (strip stderr) msg \<and>
      node_at (disk w') (get_work_dir base_dir task_id) \<noteq> Some Dir \<and>
      ((\<forall>b. files3 (get_work_dir base_dir task_id) \<noteq> Some (File b)) \<longrightarrow>
         node_at (disk w') (get_work_dir base_dir task_id) = None)"
proof -
  let ?work = "get_work_dir base_dir task_id"
  let ?d = "?work @ [ustr ''decompiled'']"
  let ?msg = "msg_recompile_failed returncode (strip stderr)"
  have rec: "recompile apktool files1' ?d
               (get_output_path base_dir task_id) = (Inl (RuntimeError ?msg), files3)"
    using assms(4,5,6) by (simp add: recompile_def)
  have pt: "process_task rs apktool (disk w) (get_cache_dir base_dir aid) ?work
              (get_output_path base_dir task_id) rules
            = (Inl (RuntimeError ?msg), rmtree files3 ?work)"
    using assms(2,3) rec by (rule process_task_recompile_failed)
  let ?t' = "t\<lparr>status := FAILED, error := Some ?msg, completed_at := Some now\<rparr>"
  let ?w' = "\<lparr>tasks = (tasks w)(task_id \<mapsto> ?t'), disk = rmtree files3 ?work\<rparr>"
  have rt: "run_task rs apktool base_dir now w task_id aid rules = Inr ?w'"
    using run_task_result [OF assms(1) pt, of now] by simp
  have ne: "?work \<noteq> []"
    using assms(2) by (rule copy_cache_to_workdir_Inr)
  have "tasks ?w' task_id = Some ?t'" "status ?t' = FAILED" "error ?t' = Some ?msg"
    "str_contains (strip stderr) ?msg"
    "node_at (disk ?w') ?work \<noteq> Some Dir"
    "(\<forall>b. files3 ?work \<noteq> Some (File b)) \<longrightarrow> node_at (disk ?w') ?work = None"
    using rmtree_gone [OF ne, of files3] by (simp_all add: recompile_message_has_diagnostic)
  with rt show ?thesis
    by blast
qed

theorem recompile_failure_fails_task_and_removes_workspace_witness:
  "tasks ex_world (ustr ''t'') = Some ex_task \<and>
   \<not> isl (copy_cache_to_workdir (disk ex_world) (get_cache_dir [] (ustr ''a''))
            (get_work_dir [] (ustr ''t''))) \<and>
   (\<exists>w' t'.
      run_task ex_re_sub ex_tool_fail [] 7 ex_world (ustr ''t'') (ustr ''a'') ex_missing_rules = Inr w' \<and>
      tasks w' (ustr ''t'') = Some t' \<and> status t' = FAILED \<and>
      error t' = Some (msg_recompile_failed 1 (ustr ''brut: error'')) \<and>
      str_contains (ustr ''brut: error'') (msg_recompile_failed 1 (ustr ''brut: error'')) \<and>
      node_at (disk w') (get_work_dir [] (ustr ''t'')) = None)"
proof -
  let ?work = "get_work_dir [] (ustr ''t'')"
  let ?copy = "copy_cache_to_workdir (disk ex_world) (get_cache_dir [] (ustr ''a'')) ?work"
  let ?d = "?work @ [ustr ''decompiled'']"
  let ?loop = "apply_rules ex_re_sub (projr ?copy) ?d 0 ex_missing_rules"
  let ?mk = "mkdirs (snd ?loop) [] (butlast (get_output_path [] (ustr ''t'')))"
  let ?tool = "ex_tool_fail (projr ?mk) ?d (get_output_path [] (ustr ''t''))"
  have h1: "tasks ex_world (ustr ''t'') = Some ex_task"
    by (simp add: ex_world_def)
  have h2: "?copy = Inr (projr ?copy)"
    by (simp add: eval_defs)
  have el: "fst ?loop = Inr (projr (fst ?loop))"
    by (simp add: eval_defs)
  have hl: "?loop = (Inr (projr (fst ?loop)), snd ?loop)"
    by (rule prod_eqI) (simp_all only: fst_conv snd_conv el [symmetric])
  have h3: "?mk = Inr (projr ?mk)"
    by (simp add: eval_defs)
  have h4: "?tool = (1, ustr '' brut: error '', snd (snd ?tool))"
    by (simp add: ex_tool_fail_def)
  have h5: "(1::int) \<noteq> 0"
    by simp
  have st: "strip (ustr '' brut: error '') = ustr ''brut: error''"
    by (simp add: strip_def isspace_def ustr_def)
  have nf: "\<forall>b. snd (snd ?tool) ?work \<noteq> Some (File b)"
    by (simp add: eval_defs)
  from recompile_failure_fails_task_and_removes_workspace
    [where apktool = ex_tool_fail and rs = ex_re_sub and now = 7, OF h1 h2 hl h3 h4 h5]
  obtain w' t' msg where r:
    "run_task ex_re_sub ex_tool_fail [] 7 ex_world (ustr ''t'') (ustr ''a'') ex_missing_rules = Inr w'"
    "tasks w' (ustr ''t'') = Some t'" "status t' = FAILED" "error t' = Some msg"
    "msg = msg_recompile_failed 1 (strip (ustr '' brut: error ''))"
    "str_contains (strip (ustr '' brut: error '')) msg"
    "(\<forall>b. snd (snd ?tool) ?work \<noteq> Some (File b)) \<longrightarrow> node_at (disk w') ?work = None"
    by blast
  have c: "\<not> isl ?copy"
    using h2 by (rule ssubst) simp
  have e: "error t' = Some (msg_recompile_failed 1 (ustr ''brut: error''))"
    using r(4,5) st by simp
  have sc: "str_contains (ustr ''brut: error'') (msg_recompile_failed 1 (ustr ''brut: error''))"
    using r(5,6) st by simp
  have gone: "node_at (disk w') ?work = None"
    using r(7) nf by blast
  show ?thesis
    by (intro conjI h1 c exI [of _ w'] exI [of _ t'] r(1) r(2) r(3) e sc gone)
qed

section \<open>Rule application on files as they are found\<close>

text \<open>
  C5. The claim asks for a failure whenever the data of an image rule is not valid Base64.
  The validator decodes with \<open>validate=True\<close>; the applier decodes without it, so characters
  outside the alphabet are dropped and what remains is written. The data \<open>QUJD!\<close> is
  rejected by the validator's decoding, yet the applier reports success and the target file
  then holds \<open>ABC\<close>.
\<close>

theorem image_rule_accepts_malformed_base64:
  "isl (b64decode (ustr ''QUJD!'') True) \<and>
   validate_image_rule 0 (ImageRule (ustr ''f'') (ustr ''QUJD!'')) =
     [ValidationError 0 (ustr ''image_data'') msg_image_data_invalid] \<and>
   path_exists ex_files
     (joinpath [ustr ''cache'', ustr ''a'', ustr ''decompiled''] (ustr ''f'')) = Inr True \<and>
   fst (apply_image_rule ex_files [ustr ''cache'', ustr ''a'', ustr ''decompiled'']
          (ImageRule (ustr ''f'') (ustr ''QUJD!''))) =
     Inr \<lparr>rule_index = 0, success = True, message = msg_image_ok @ ustr ''f''\<rparr> \<and>
   snd (apply_image_rule ex_files [ustr ''cache'', ustr ''a'', ustr ''decompiled'']
          (ImageRule (ustr ''f'') (ustr ''QUJD!'')))
       [ustr ''cache'', ustr ''a'', ustr ''decompiled'', ustr ''f''] =
     Some (File [0x41, 0x42, 0x43])"
  by (simp add: eval_defs validate_image_rule_def)

text \<open>
  C6. The claim asks that a script rule without a match leave the bytes of the file as they
  were. The applier reads and writes the file in text mode and writes it back whether or not
  anything matched, so every \<open>\r\n\<close> and every lone \<open>\r\<close> of the file comes back as \<open>\n\<close>.
  The file below holds \<open>a\r\nb\<close>; the pattern \<open>x\<close> does not occur in it; the rule succeeds,
  in literal mode and with a regular expression that matches nowhere, and the file holds
  \<open>a\nb\<close> afterwards.
\<close>

theorem script_rule_without_match_rewrites_line_endings:
  "ex_files [ustr ''cache'', ustr ''a'', ustr ''decompiled'', ustr ''f''] =
     Some (File [0x61, 0x0D, 0x0A, 0x62]) \<and>
   read_text ex_files (joinpath [ustr ''cache'', ustr ''a'', ustr ''decompiled''] (ustr ''f'')) =
     Inr [0x61, 0x0A, 0x62] \<and>
   \<not> str_contains (ustr ''x'') [0x61, 0x0A, 0x62] \<and>
   replace [0x61, 0x0A, 0x62] (ustr ''x'') (ustr ''y'') = [0x61, 0x0A, 0x62] \<and>
   fst (apply_script_rule ex_re_sub ex_files [ustr ''cache'', ustr ''a'', ustr ''decompiled'']
          (ScriptRule (ustr ''f'') (ustr ''x'') (ustr ''y'') False)) =
     Inr \<lparr>rule_index = 0, success = True, message = msg_script_ok @ ustr ''f''\<rparr> \<and>
   snd (apply_script_rule ex_re_sub ex_files [ustr ''cache'', ustr ''a'', ustr ''decompiled'']
          (ScriptRule (ustr ''f'') (ustr ''x'') (ustr ''y'') False))
       [ustr ''cache'', ustr ''a'', ustr ''decompiled'', ustr ''f''] =
     Some (File [0x61, 0x0A, 0x62]) \<and>
   snd (apply_script_rule ex_re_sub ex_files [ustr ''cache'', ustr ''a'', ustr ''decompiled'']
          (ScriptRule (ustr ''f'') (ustr ''x'') (ustr ''y'') True))
       [ustr ''cache'', ustr ''a'', ustr ''decompiled'', ustr ''f''] =
     Some (File [0x61, 0x0A, 0x62])"
  by (simp add: eval_defs)

lemma stat_Inr_exists: "stat f t = Inr q \<Longrightarrow> path_exists f t = Inr True"
  by (simp add: path_exists_def)

lemma read_bytes_dir:
  assumes "stat f t = Inr q" "node_at f q = Some Dir"
  shows "read_bytes f t = Inl (IsADirectoryError (path_str t))"
  using assms by (simp add: read_bytes_def)

lemma open_w_dir:
  assumes "stat f t = Inr q" "node_at f q = Some Dir"
  shows "open_w f t = Inl (IsADirectoryError (path_str t))"
  using assms by (simp add: open_w_def)

lemma script_failure_text:
  "str_contains (exn_text e) (message (script_failure r e))"
  unfolding script_failure_def
  by (simp only: RuleResult.simps append_assoc [symmetric] str_contains_suffix)

lemma image_failure_text:
  "str_contains (exn_text e) (message (image_failure r e))"
  unfolding image_failure_def
  by (simp only: RuleResult.simps append_assoc [symmetric] str_contains_suffix)

text \<open>
  C10 as stated fails for an image rule whose data does not decode: the decoding comes
  before the write, so the failure then carries the text of the decoding error and the
  write to the directory is never tried.
\<close>

theorem directory_target_image_rule_counterexample:
  "stat ex_files (joinpath [ustr ''cache'', ustr ''a'', ustr ''decompiled''] (ustr ''res'')) =
     Inr [ustr ''cache'', ustr ''a'', ustr ''decompiled'', ustr ''res''] \<and>
   node_at ex_files [ustr ''cache'', ustr ''a'', ustr ''decompiled'', ustr ''res''] = Some Dir \<and>
   apply_image_rule ex_files [ustr ''cache'', ustr ''a'', ustr ''decompiled'']
     (ImageRule (ustr ''res'') (ustr ''QQ'')) =
     (Inr (image_failure (ImageRule (ustr ''res'') (ustr ''QQ''))
        (BinasciiError (ustr ''Incorrect padding''))), ex_files) \<and>
   \<not> str_contains
       (exn_text (IsADirectoryError
          (path_str (joinpath [ustr ''cache'', ustr ''a'', ustr ''decompiled''] (ustr ''res'')))))
       (message (projr (fst (apply_image_rule ex_files
          [ustr ''cache'', ustr ''a'', ustr ''decompiled'']
          (ImageRule (ustr ''res'') (ustr ''QQ''))))))"
  by (simp add: eval_defs os_error_text_def str_nat.simps msg_image_failed_def
      msg_error_sep_def)

text \<open>
  C10, amended. A rule whose target resolves to a directory gets a failure result and the
  files stay as they were. For a script rule, and for an image rule whose data decodes, the
  message carries the text of the \<open>IsADirectoryError\<close> that the read or the write raised; for
  an image rule whose data does not decode it carries the text of the decoding error.
\<close>

theorem directory_target_fails_with_error_text:
  assumes "stat f (joinpath d tp) = Inr q"
    and "node_at f q = Some Dir"
  shows "apply_script_rule rs f d (ScriptRule tp pat rep rx) =
           (Inr (script_failure (ScriptRule tp pat rep rx)
              (IsADirectoryError (path_str (joinpath d tp)))), f) \<and>
         str_contains (exn_text (IsADirectoryError (path_str (joinpath d tp))))
           (message (projr (fst (apply_script_rule rs f d (ScriptRule tp pat rep rx))))) \<and>
         (\<forall>image_bytes. b64decode dat False = Inr image_bytes \<longrightarrow>
            apply_image_rule f d (ImageRule tp dat) =
              (Inr (image_failure (ImageRule tp dat)
                 (IsADirectoryError (path_str (joinpath d tp)))), f) \<and>
            str_contains (exn_text (IsADirectoryError (path_str (joinpath d tp))))
              (message (projr (fst (apply_image_rule f d (ImageRule tp dat)))))) \<and>
         (\<forall>e. b64decode dat False = Inl e \<longrightarrow>
            apply_image_rule f d (ImageRule tp dat) = (Inr (image_failure (ImageRule tp dat) e), f) \<and>
            str_contains (exn_text e)
              (message (projr (fst (apply_image_rule f d (ImageRule tp dat))))))"
proof -
  have ex: "path_exists f (joinpath d tp) = Inr True"
    using assms(1) by (rule stat_Inr_exists)
  have s: "apply_script_rule rs f d (ScriptRule tp pat rep rx) =
           (Inr (script_failure (ScriptRule tp pat rep rx)
              (IsADirectoryError (path_str (joinpath d tp)))), f)"
    using ex read_bytes_dir [OF assms] by (simp add: apply_script_rule_def read_text_def)
  have i1: "apply_image_rule f d (ImageRule tp dat) =
              (Inr (image_failure (ImageRule tp dat)
                 (IsADirectoryError (path_str (joinpath d tp)))), f)"
    if "b64decode dat False = Inr image_bytes" for image_bytes
    using that ex open_w_dir [OF assms] by (simp add: apply_image_rule_def write_bytes_def)
  have i2: "apply_image_rule f d (ImageRule tp dat) = (Inr (image_failure (ImageRule tp dat) e), f)"
    if "b64decode dat False = Inl e" for e
    using that ex by (simp add: apply_image_rule_def)
  show ?thesis
    using s i1 i2 by (simp add: script_failure_text image_failure_text del: exn_text.simps)
qed

theorem directory_target_fails_with_error_text_witness:
  "stat ex_files (joinpath [ustr ''cache'', ustr ''a'', ustr ''decompiled''] (ustr ''res'')) =
     Inr [ustr ''cache'', ustr ''a'', ustr ''decompiled'', ustr ''res''] \<and>
   node_at ex_files [ustr ''cache'', ustr ''a'', ustr ''decompiled'', ustr ''res''] = Some Dir \<and>
   b64decode (ustr ''QUJD'') False = Inr [0x41, 0x42, 0x43] \<and>
   apply_script_rule ex_re_sub ex_files [ustr ''cache'', ustr ''a'', ustr ''decompiled'']
     (ScriptRule (ustr ''res'') (ustr ''x'') (ustr ''y'') False) =
     (Inr (script_failure (ScriptRule (ustr ''res'') (ustr ''x'') (ustr ''y'') False)
        (IsADirectoryError
           (path_str (joinpath [ustr ''cache'', ustr ''a'', ustr ''decompiled''] (ustr ''res''))))),
      ex_files) \<and>
   apply_image_rule ex_files [ustr ''cache'', ustr ''a'', ustr ''decompiled'']
     (ImageRule (ustr ''res'') (ustr ''QUJD'')) =
     (Inr (image_failure (ImageRule (ustr ''res'') (ustr ''QUJD''))
        (IsADirectoryError
           (path_str (joinpath [ustr ''cache'', ustr ''a'', ustr ''decompiled''] (ustr ''res''))))),
      ex_files)"
proof -
  let ?d = "[ustr ''cache'', ustr ''a'', ustr ''decompiled'']"
  have h1: "stat ex_files (joinpath ?d (ustr ''res'')) =
      Inr [ustr ''cache'', ustr ''a'', ustr ''decompiled'', ustr ''res'']"
    by (simp add: eval_defs)
  have h2: "node_at ex_files [ustr ''cache'', ustr ''a'', ustr ''decompiled'', ustr ''res''] = Some Dir"
    by (simp add: eval_defs)
  have h3: "b64decode (ustr ''QUJD'') False = Inr [0x41, 0x42, 0x43]"
    by (simp add: eval_defs)
  from directory_target_fails_with_error_text [OF h1 h2, of ex_re_sub "ustr ''x''" "ustr ''y''" False
      "ustr ''QUJD''"] h3
  have "apply_script_rule ex_re_sub ex_files ?d
     (ScriptRule (ustr ''res'') (ustr ''x'') (ustr ''y'') False) =
     (Inr (script_failure (ScriptRule (ustr ''res'') (ustr ''x'') (ustr ''y'') False)
        (IsADirectoryError (path_str (joinpath ?d (ustr ''res''))))), ex_files)"
    "apply_image_rule ex_files ?d (ImageRule (ustr ''res'') (ustr ''QUJD'')) =
     (Inr (image_failure (ImageRule (ustr ''res'') (ustr ''QUJD''))
        (IsADirectoryError (path_str (joinpath ?d (ustr ''res''))))), ex_files)"
    by blast+
  with h1 h2 h3 show ?thesis
    by (intro conjI)
qed

section \<open>The cache tree\<close>

lemma split_slash_hd: "split_slash s \<noteq> [] \<and> prefix (hd (split_slash s)) s"
  by (induction s) (auto split: list.splits)

lemma split_slash_sublist: "c \<in> set (split_slash s) \<Longrightarrow> sublist c s"
proof (induction s arbitrary: c)
  case Nil
  then show ?case by simp
next
  case (Cons x xs)
  obtain p ps where sp: "split_slash xs = p # ps"
    using split_slash_hd [of xs] by (cases "split_slash xs") auto
  have pp: "prefix p xs"
    using split_slash_hd [of xs] sp by simp
  show ?case
  proof (cases "x = 47")
    case True
    with Cons.prems have "c = [] \<or> c \<in> set (split_slash xs)" by simp
    then show ?thesis
      using Cons.IH by (auto simp: sublist_Cons_right)
  next
    case False
    with Cons.prems sp have "c = x # p \<or> c \<in> set ps" by simp
    then show ?thesis
    proof
      assume "c = x # p"
      with pp show ?thesis by (simp add: sublist_Cons_right)
    next
      assume "c \<in> set ps"
      with sp have "c \<in> set (split_slash xs)" by simp
      from Cons.IH [OF this] show ?thesis by (simp add: sublist_Cons_right)
    qed
  qed
qed

lemma path_parts_no_dotdot:
  assumes "\<not> str_contains (ustr ''..'') s"
  shows "[46, 46] \<notin> set (path_parts s)"
proof
  assume "[46, 46] \<in> set (path_parts s)"
  then have "[46, 46] \<in> set (split_slash s)" by (simp add: path_parts_def)
  then have "sublist [46, 46] s" by (rule split_slash_sublist)
  with assms show False by (simp add: str_contains_sublist ustr_def)
qed

lemma lookup_no_dotdot:
  "[46, 46] \<notin> set cs \<Longrightarrow> lookup name f cur cs = Inr q \<Longrightarrow> q = cur @ cs"
proof (induction cs arbitrary: cur)
  case Nil
  then show ?case by (simp split: if_splits)
next
  case (Cons c cs)
  from Cons.prems have "lookup name f (cur @ [c]) cs = Inr q"
    by (simp split: if_splits option.splits node.splits)
  moreover from Cons.prems(1) have "[46, 46] \<notin> set cs"
    by simp
  ultimately have "q = (cur @ [c]) @ cs"
    by (rule Cons.IH [rotated])
  then show ?case by simp
qed

lemma stat_Inr_lookup:
  "stat f t = Inr q \<Longrightarrow> lookup (path_str t) f [] t = Inr q"
  by (simp add: stat_def split: option.splits if_splits)

lemma good_rule_target:
  assumes "good_rule r" "[46, 46] \<notin> set d" "stat f (joinpath d (target_path r)) = Inr q"
  shows "prefix d q"
proof -
  have j: "joinpath d (target_path r) = d @ path_parts (target_path r)"
    using assms(1) by (simp add: good_rule_def joinpath_def ustr_def)
  have "[46, 46] \<notin> set (d @ path_parts (target_path r))"
    using assms(1,2) path_parts_no_dotdot by (simp add: good_rule_def)
  from lookup_no_dotdot [OF this, of _ f "[]" q] stat_Inr_lookup [OF assms(3)] j
  have "q = d @ path_parts (target_path r)"
    by simp
  then show ?thesis by simp
qed

lemma open_w_existing:
  assumes "stat f t = Inr q" "open_w f t = Inr q'"
  shows "q' = q"
  using assms by (cases "node_at f q"; cases "the (node_at f q)") (simp_all add: open_w_def)

lemma write_text_frame:
  assumes "stat f t = Inr q" "p \<noteq> q"
  shows "snd (write_text f t s) p = f p"
proof (cases "open_w f t")
  case (Inl e)
  then show ?thesis by (simp add: write_text_def)
next
  case (Inr q')
  with assms(1) have "q' = q" by (rule open_w_existing)
  with Inr assms(2) show ?thesis
    by (cases "utf8_encode s") (simp_all add: write_text_def)
qed

lemma write_bytes_frame:
  assumes "stat f t = Inr q" "p \<noteq> q"
  shows "snd (write_bytes f t b) p = f p"
proof (cases "open_w f t")
  case (Inl e)
  then show ?thesis by (simp add: write_bytes_def)
next
  case (Inr q')
  with assms(1) have "q' = q" by (rule open_w_existing)
  with Inr assms(2) show ?thesis
    by (simp add: write_bytes_def)
qed

lemma apply_script_rule_frame:
  assumes "\<And>q. stat f (joinpath d (target_path r)) = Inr q \<Longrightarrow> p \<noteq> q"
  shows "snd (apply_script_rule rs f d r) p = f p"
proof (cases "stat f (joinpath d (target_path r))")
  case (Inl e)
  then show ?thesis by (simp add: apply_script_rule_def path_exists_def)
next
  case Some: (Inr q)
  with assms have ne: "p \<noteq> q" by simp
  have ex: "path_exists f (joinpath d (target_path r)) = Inr True"
    using Some by (rule stat_Inr_exists)
  show ?thesis
  proof (cases "read_text f (joinpath d (target_path r))")
    case (Inl e)
    with ex show ?thesis by (simp add: apply_script_rule_def)
  next
    case content: (Inr content)
    show ?thesis
    proof (cases "if use_regex r then rs (pattern r) (replacement r) content
                  else Inr (replace content (pattern r) (replacement r))")
      case (Inl e)
      with ex content show ?thesis by (simp add: apply_script_rule_def)
    next
      case new: (Inr new_content)
      obtain res f' where wt: "write_text f (joinpath d (target_path r)) new_content = (res, f')"
        by (cases "write_text f (joinpath d (target_path r)) new_content")
      have "snd (write_text f (joinpath d (target_path r)) new_content) p = f p"
        using Some ne by (rule write_text_frame)
      with wt have "f' p = f p" by simp
      with ex content new wt show ?thesis
        by (cases res) (simp_all add: apply_script_rule_def)
    qed
  qed
qed

lemma apply_image_rule_frame:
  assumes "\<And>q. stat f (joinpath d (target_path r)) = Inr q \<Longrightarrow> p \<noteq> q"
  shows "snd (apply_image_rule f d r) p = f p"
proof (cases "stat f (joinpath d (target_path r))")
  case (Inl e)
  then show ?thesis by (simp add: apply_image_rule_def path_exists_def)
next
  case Some: (Inr q)
  with assms have ne: "p \<noteq> q" by simp
  have ex: "path_exists f (joinpath d (target_path r)) = Inr True"
    using Some by (rule stat_Inr_exists)
  show ?thesis
  proof (cases "b64decode (image_data r) False")
    case (Inl e)
    with ex show ?thesis by (simp add: apply_image_rule_def)
  next
    case dec: (Inr image_bytes)
    obtain res f' where wb: "write_bytes f (joinpath d (target_path r)) image_bytes = (res, f')"
      by (cases "write_bytes f (joinpath d (target_path r)) image_bytes")
    have "snd (write_bytes f (joinpath d (target_path r)) image_bytes) p = f p"
      using Some ne by (rule write_bytes_frame)
    with wb have "f' p = f p" by simp
    with ex dec wb show ?thesis
      by (cases res) (simp_all add: apply_image_rule_def)
  qed
qed

lemma apply_rule_frame:
  assumes "good_rule r" "[46, 46] \<notin> set d" "\<not> prefix d p"
  shows "snd (apply_rule rs f d i r) p = f p"
proof -
  have ne: "p \<noteq> q" if "stat f (joinpath d (target_path r)) = Inr q" for q
    using good_rule_target [OF assms(1,2) that] assms(3) by auto
  show ?thesis
  proof (cases r)
    case (ScriptRule a b c e)
    have "snd (apply_script_rule rs f d r) p = f p"
      using ne by (rule apply_script_rule_frame)
    with ScriptRule show ?thesis
      by (cases "apply_script_rule rs f d r"; cases "fst (apply_script_rule rs f d r)")
        (simp_all add: apply_rule_def)
  next
    case (ImageRule a b)
    have "snd (apply_image_rule f d r) p = f p"
      using ne by (rule apply_image_rule_frame)
    with ImageRule show ?thesis
      by (cases "apply_image_rule f d r"; cases "fst (apply_image_rule f d r)")
        (simp_all add: apply_rule_def)
  next
    case (OtherRule n)
    then show ?thesis by (simp add: apply_rule_def)
  qed
qed

lemma apply_rules_frame:
  assumes "\<forall>r \<in> set rules. good_rule r" "[46, 46] \<notin> set d" "\<not> prefix d p"
  shows "snd (apply_rules rs f d i rules) p = f p"
  using assms(1)
proof (induction rules arbitrary: f i)
  case Nil
  then show ?case by simp
next
  case (Cons r rules)
  obtain res f1 where r: "apply_rule rs f d i r = (res, f1)"
    by (cases "apply_rule rs f d i r")
  have "snd (apply_rule rs f d i r) p = f p"
    using Cons.prems assms(2,3) by (simp add: apply_rule_frame)
  with r have f1: "f1 p = f p"
    by simp
  show ?case
  proof (cases res)
    case (Inl e)
    with r f1 show ?thesis by simp
  next
    case (Inr result)
    obtain res2 f2 where l: "apply_rules rs f1 d (Suc i) rules = (res2, f2)"
      by (cases "apply_rules rs f1 d (Suc i) rules")
    have "snd (apply_rules rs f1 d (Suc i) rules) p = f1 p"
      using Cons by simp
    with l f1 have "f2 p = f p"
      by simp
    with r Inr l show ?thesis
      by (cases res2) simp_all
  qed
qed

lemma mkdirs_frame:
  "mkdirs f cur cs = Inr f' \<Longrightarrow> \<not> prefix p (cur @ cs) \<Longrightarrow> f' p = f p"
proof (induction cs arbitrary: f cur)
  case Nil
  then show ?case by simp
next
  case (Cons c cs)
  have np: "\<not> prefix p ((cur @ [c]) @ cs)"
    using Cons.prems(2) by simp
  have ne: "p \<noteq> cur @ [c]"
    using Cons.prems(2) by auto
  show ?case
  proof (cases "node_at f (cur @ [c])")
    case None
    with Cons.prems(1) have "mkdirs (f((cur @ [c]) \<mapsto> Dir)) (cur @ [c]) cs = Inr f'"
      by simp
    from Cons.IH [OF this np] ne show ?thesis by simp
  next
    case (Some n)
    show ?thesis
    proof (cases n)
      case (File b)
      with Some Cons.prems(1) show ?thesis by simp
    next
      case Dir
      with Some Cons.prems(1) have "mkdirs f (cur @ [c]) cs = Inr f'" by simp
      from Cons.IH [OF this np] show ?thesis .
    qed
  qed
qed

lemma validate_target_path_Nil:
  "validate_target_path k tp = [] \<Longrightarrow>
     \<not> str_contains (ustr ''..'') tp \<and> \<not> startswith tp (ustr ''/'')"
  by (cases "tp = [] \<or> strip tp = []"; cases "str_contains (ustr ''..'') tp";
      cases "startswith tp (ustr ''/'')") (simp_all add: validate_target_path_def)

lemma validate_from_Nil_good:
  "validate_from rc k rules = Inr [] \<Longrightarrow> \<forall>r \<in> set rules. good_rule r"
proof (induction rules arbitrary: k)
  case Nil
  then show ?case by simp
next
  case (Cons r rules)
  from Cons.prems obtain rest where
    rest: "validate_from rc (Suc k) rules = Inr rest"
    and errs: "[] = validate_target_path (int k) (target_path r) @
           (case r of ScriptRule _ _ _ _ \<Rightarrow> validate_script_rule rc (int k) r
                    | ImageRule _ _ \<Rightarrow> validate_image_rule (int k) r
                    | OtherRule _ \<Rightarrow> []) @ rest"
    and no: "\<not> is_OtherRule r"
    by (rule validate_from_Cons)
  from errs have "validate_target_path (int k) (target_path r) = []" "rest = []"
    by simp_all
  with rest no Cons.IH [of "Suc k"] validate_target_path_Nil [of "int k" "target_path r"]
  show ?case
    by (simp add: good_rule_def)
qed

lemma validated_rules_good:
  assumes "validate_rules rc rules = Inr res" "valid res"
  shows "\<forall>r \<in> set rules. good_rule r"
proof -
  from assms obtain errs where "validate_from rc 0 rules = Inr errs" "errs = []"
    by (cases "validate_from rc 0 rules") (auto simp: validate_rules_def)
  then show ?thesis
    using validate_from_Nil_good by blast
qed

lemma rmtree_frame: "\<not> prefix d p \<Longrightarrow> rmtree f d p = f p"
  by (cases "node_at f d"; cases "the (node_at f d)") (simp_all add: rmtree_def)

lemma recompile_frame:
  assumes "\<forall>f p. prefix cache_dir p \<longrightarrow> snd (snd (apktool f source_dir output_apk)) p = f p"
    and "\<not> prefix cache_dir (butlast output_apk)"
    and "prefix cache_dir p"
  shows "snd (recompile apktool f source_dir output_apk) p = f p"
proof (cases "mkdirs f [] (butlast output_apk)")
  case (Inl e)
  then show ?thesis by (simp add: recompile_def)
next
  case (Inr f1)
  have "\<not> prefix p ([] @ butlast output_apk)"
    using assms(2,3) by (auto dest: prefix_order.trans)
  with Inr have f1: "f1 p = f p"
    by (rule mkdirs_frame)
  obtain rc err f2 where t: "apktool f1 source_dir output_apk = (rc, err, f2)"
    by (cases "apktool f1 source_dir output_apk")
  with assms(1,3) have "f2 p = f1 p"
    by (metis snd_conv)
  with f1 Inr t show ?thesis
    by (simp add: recompile_def)
qed

text \<open>
  C2 as stated fails: \<open>process_task\<close> applies whatever rules it is given, and a target path
  with parent-directory segments leads out of the workspace. The rule below is rejected by
  \<open>validate_rules\<close>; handed to \<open>process_task\<close> all the same, it succeeds and replaces a file
  of the cache tree.
\<close>

theorem unvalidated_rule_writes_into_cache:
  "\<not> valid (projr (validate_rules ex_none ex_escaping_rules)) \<and>
   prefix [ustr ''cache'', ustr ''a'']
     [ustr ''cache'', ustr ''a'', ustr ''decompiled'', ustr ''f''] \<and>
   ex_files [ustr ''cache'', ustr ''a'', ustr ''decompiled'', ustr ''f''] =
     Some (File [0x61, 0x0D, 0x0A, 0x62]) \<and>
   map success (projr (fst (process_task ex_re_sub ex_tool_ok ex_files [ustr ''cache'', ustr ''a'']
          [ustr ''w'', ustr ''t''] [ustr ''o'', ustr ''t.apk''] ex_escaping_rules))) = [True] \<and>
   snd (process_task ex_re_sub ex_tool_ok ex_files [ustr ''cache'', ustr ''a'']
          [ustr ''w'', ustr ''t''] [ustr ''o'', ustr ''t.apk''] ex_escaping_rules)
       [ustr ''cache'', ustr ''a'', ustr ''decompiled'', ustr ''f''] =
     Some (File [0x41, 0x42, 0x43])"
  by (simp add: eval_defs ex_escaping_rules_def ex_none_def validate_rules_def
      validate_target_path_def validate_image_rule_def)

text \<open>
  C2, amended. Take a rule set that \<open>validate_rules\<close> accepts, a workspace path without
  parent-directory segments that lies neither inside nor above the cache directory, an output
  file whose directory is not inside the cache directory, and a repackaging tool that itself
  leaves the cache tree alone. Then every path of the cache tree holds after \<open>process_task\<close>
  what it held before, whether the task ends well or with a copy or recompile failure.
\<close>

theorem validated_task_leaves_cache_untouched:
  assumes "validate_rules rc rules = Inr res" and "valid res"
    and "[46, 46] \<notin> set work_dir"
    and "\<not> prefix cache_dir work_dir" and "\<not> prefix work_dir cache_dir"
    and "\<not> prefix cache_dir (butlast output_path)"
    and "\<forall>f p. prefix cache_dir p \<longrightarrow>
           snd (snd (apktool f (work_dir @ [ustr ''decompiled'']) output_path)) p = f p"
    and "prefix cache_dir p"
  shows "snd (process_task rs apktool files cache_dir work_dir output_path rules) p = files p"
proof -
  let ?d = "work_dir @ [ustr ''decompiled'']"
  have good: "\<forall>r \<in> set rules. good_rule r"
    using assms(1,2) by (rule validated_rules_good)
  have np: "\<not> prefix work_dir p"
    using assms(4,5,8) by (auto dest: prefix_same_cases)
  then have npd: "\<not> prefix ?d p"
    by (auto dest: append_prefixD)
  have nd: "[46, 46] \<notin> set ?d"
    using assms(3) by (simp add: ustr_def)
  show ?thesis
  proof (cases "copy_cache_to_workdir files cache_dir work_dir")
    case (Inl e)
    then show ?thesis
      using np by (simp add: process_task_def rmtree_frame)
  next
    case (Inr files1)
    from copy_cache_to_workdir_Inr(4) [OF Inr] obtain filesm where
      mk: "mkdirs files [] work_dir = Inr filesm"
      and f1: "files1 = (\<lambda>p. if prefix work_dir p \<and> p \<noteq> work_dir
                         then files (cache_dir @ drop (length work_dir) p) else filesm p)"
      by blast
    have "\<not> prefix p ([] @ work_dir)"
      using assms(4,8) by (auto dest: prefix_order.trans)
    with mk have "filesm p = files p"
      by (rule mkdirs_frame)
    with f1 np have s1: "files1 p = files p"
      by simp
    obtain res files2 where loop: "apply_rules rs files1 ?d 0 rules = (res, files2)"
      by (cases "apply_rules rs files1 ?d 0 rules")
    have "snd (apply_rules rs files1 ?d 0 rules) p = files1 p"
      using good nd npd by (rule apply_rules_frame)
    with loop s1 have s2: "files2 p = files p"
      by simp
    show ?thesis
    proof (cases res)
      case (Inl e)
      with Inr loop s2 show ?thesis
        by (simp add: process_task_def)
    next
      case results: (Inr results)
      obtain u files3 where rec: "recompile apktool files2 ?d output_path = (u, files3)"
        by (cases "recompile apktool files2 ?d output_path")
      have "snd (recompile apktool files2 ?d output_path) p = files2 p"
        using assms(7,6,8) by (rule recompile_frame)
      with rec s2 have "files3 p = files p"
        by simp
      with Inr loop results rec np show ?thesis
        by (cases u) (simp_all add: process_task_def rmtree_frame)
    qed
  qed
qed

theorem validated_task_leaves_cache_untouched_witness:
  "valid (projr (validate_rules ex_none ex_good_rules)) \<and>
   prefix [ustr ''cache'', ustr ''a'']
     [ustr ''cache'', ustr ''a'', ustr ''decompiled'', ustr ''f''] \<and>
   snd (process_task ex_re_sub ex_tool_ok ex_files [ustr ''cache'', ustr ''a'']
          [ustr ''w'', ustr ''t''] [ustr ''o'', ustr ''t.apk''] ex_good_rules)
       [ustr ''cache'', ustr ''a'', ustr ''decompiled'', ustr ''f''] =
     ex_files [ustr ''cache'', ustr ''a'', ustr ''decompiled'', ustr ''f''] \<and>
   snd (process_task ex_re_sub ex_tool_ok ex_files [ustr ''cache'', ustr ''a'']
          [ustr ''w'', ustr ''t''] [ustr ''o'', ustr ''t.apk''] ex_good_rules)
       [ustr ''w'', ustr ''t'', ustr ''decompiled'', ustr ''f''] =
     Some (File [0x41, 0x42, 0x43])"
proof -
  let ?cache = "[ustr ''cache'', ustr ''a'']"
  let ?work = "[ustr ''w'', ustr ''t'']"
  let ?out = "[ustr ''o'', ustr ''t.apk'']"
  let ?p = "[ustr ''cache'', ustr ''a'', ustr ''decompiled'', ustr ''f'']"
  have h1: "validate_rules ex_none ex_good_rules = Inr (projr (validate_rules ex_none ex_good_rules))"
    by (simp add: eval_defs ex_good_rules_def ex_none_def validate_rules_def
        validate_target_path_def validate_image_rule_def)
  have h2: "valid (projr (validate_rules ex_none ex_good_rules))"
    by (simp add: eval_defs ex_good_rules_def ex_none_def validate_rules_def
        validate_target_path_def validate_image_rule_def)
  have h3: "[46, 46] \<notin> set ?work"
    by (simp add: ustr_def)
  have h4: "\<not> prefix ?cache ?work"
    by (simp add: ustr_def)
  have h5: "\<not> prefix ?work ?cache"
    by (simp add: ustr_def)
  have h6: "\<not> prefix ?cache (butlast ?out)"
    by (simp add: ustr_def)
  have h7: "\<forall>f p. prefix ?cache p \<longrightarrow>
      snd (snd (ex_tool_ok f (?work @ [ustr ''decompiled'']) ?out)) p = f p"
    by (auto simp: ex_tool_ok_def ustr_def)
  have h8: "prefix ?cache ?p"
    by simp
  have c: "snd (process_task ex_re_sub ex_tool_ok ex_files ?cache ?work ?out ex_good_rules) ?p =
      ex_files ?p"
    using h1 h2 h3 h4 h5 h6 h7 h8 by (rule validated_task_leaves_cache_untouched)
  have w: "snd (process_task ex_re_sub ex_tool_ok ex_files ?cache ?work ?out ex_good_rules)
      [ustr ''w'', ustr ''t'', ustr ''decompiled'', ustr ''f''] = Some (File [0x41, 0x42, 0x43])"
    by (simp add: eval_defs ex_good_rules_def)
  show ?thesis
    by (intro conjI h2 h8 c w)
qed

end
